theory Spec2Isabelle
  imports Main "HOL-Library.AList"
begin

section \<open>JavaScript values\<close>

text \<open>
  The loader of \<^verbatim>\<open>ServerLoader.ts\<close> handles untyped values: settings values, middleware
  arguments, errors and the results of hooks. A value is one of the primitives, an array,
  an object (the list of its own enumerable properties, in the order \<^verbatim>\<open>Object.keys\<close>
  reports them, with distinct keys), an error object or a function. Numbers are integers;
  fractions and NaN are not represented.

  Functions are closures the loader creates or receives. Each is a constructor holding
  what the closure captures:
  \<^item> \<open>UserFn n\<close>: a function of the application (a middleware, a handler);
  \<^item> \<open>GlobalErrorHandlerMiddleware\<close>: the framework's class of that name;
  \<^item> \<open>EmptyFn\<close>: \<^verbatim>\<open>() => {}\<close> and \<^verbatim>\<open>new Function\<close>;
  \<^item> \<open>Built f\<close>: \<^verbatim>\<open>HandlerBuilder.from(f).build()\<close>;
  \<^item> \<open>Bound f\<close>: \<^verbatim>\<open>f.bind(this)\<close>;
  \<^item> \<open>StaticMount dirs key\<close>: the request handler \<^verbatim>\<open>mountStaticDirectories\<close> installs
    for \<open>key\<close>, closing over \<open>mountDirectories\<close>;
  \<^item> \<open>LogServerError err\<close>: the arrow function
    \<^verbatim>\<open>() => { $log.error("[TSED] HTTP Server error", err); }\<close> of \<^verbatim>\<open>start\<close>.
\<close>

datatype fnval =
    UserFn nat
  | GlobalErrorHandlerMiddleware
  | EmptyFn
  | Built fnval
  | Bound fnval
  | StaticMount jsval string
  | LogServerError jsval
and jsval =
    Undefined
  | Null
  | Bool bool
  | Num int
  | Str string
  | Arr "jsval list"
  | Obj "(string \<times> jsval) list"
  | Err string
  | Fn fnval

text \<open>JavaScript truthiness, the test of \<^verbatim>\<open>if (value)\<close> and of \<^verbatim>\<open>a || b\<close>.\<close>

fun truthy :: "jsval \<Rightarrow> bool" where
  "truthy Undefined = False"
| "truthy Null = False"
| "truthy (Bool b) = b"
| "truthy (Num n) = (n \<noteq> 0)"
| "truthy (Str s) = (s \<noteq> [])"
| "truthy (Arr xs) = True"
| "truthy (Obj kvs) = True"
| "truthy (Err m) = True"
| "truthy (Fn f) = True"

text \<open>\<^verbatim>\<open>isEmpty\<close> of \<^verbatim>\<open>utils.ts\<close>: the empty string, null or undefined.\<close>

definition isEmpty :: "jsval \<Rightarrow> bool" where
  "isEmpty v = (v = Str [] \<or> v = Null \<or> v = Undefined)"

text \<open>\<^verbatim>\<open>typeof arg === "function"\<close>.\<close>

fun is_function :: "jsval \<Rightarrow> bool" where
  "is_function (Fn f) = True"
| "is_function v = False"

text \<open>Decimal digits of an array index, for \<^verbatim>\<open>Object.keys\<close> of arrays and strings.\<close>

fun string_of_nat :: "nat \<Rightarrow> string" where
  "string_of_nat n =
     (if n < 10 then [char_of (48 + n)]
      else string_of_nat (n div 10) @ [char_of (48 + n mod 10)])"

text \<open>
  The own enumerable properties of a value that passed a truthiness test: those of an
  object, the indexed elements of an array or of a string, none for the other values.
\<close>

fun object_entries :: "jsval \<Rightarrow> (string \<times> jsval) list" where
  "object_entries (Obj kvs) = kvs"
| "object_entries (Arr xs) = zip (map string_of_nat [0..<length xs]) xs"
| "object_entries (Str s) = zip (map string_of_nat [0..<length s]) (map (\<lambda>c. Str [c]) s)"
| "object_entries v = []"

definition object_keys :: "jsval \<Rightarrow> string list" where
  "object_keys v = map fst (object_entries v)"

text \<open>\<^verbatim>\<open>value[key]\<close>: the property, or undefined when there is none.\<close>

definition js_get :: "jsval \<Rightarrow> string \<Rightarrow> jsval" where
  "js_get v k = (case map_of (object_entries v) k of Some x \<Rightarrow> x | None \<Rightarrow> Undefined)"

section \<open>The loader's state and its collaborators\<close>

datatype level = Info | Debug | LError

datatype proto = HTTP | HTTPS

text \<open>
  Everything the loader does to its collaborators is recorded, in order, in a trace:
  \<^item> \<open>Log l args\<close>: \<^verbatim>\<open>$log.info\<close>, \<^verbatim>\<open>$log.debug\<close>, \<^verbatim>\<open>$log.error\<close> with their arguments;
    a template literal that interpolates an untyped value is recorded by its pieces;
  \<^item> \<open>CreateServer p h opts\<close>: \<^verbatim>\<open>Http.createServer(app)\<close> or
    \<^verbatim>\<open>Https.createServer(options, app)\<close> returning the new listener \<open>h\<close>;
  \<^item> \<open>Listen p port address\<close>: \<^verbatim>\<open>listen(+port, address)\<close> on a listener (\<open>port\<close> is the
    operand of the unary plus);
  \<^item> \<open>AppUse args\<close>, \<open>AppSet k v\<close>, \<open>AppEngine ext fn\<close>: the calls on the Express application;
  \<^item> \<open>GlobSync pattern\<close>: \<^verbatim>\<open>require("glob").sync(pattern)\<close>;
  \<^item> \<open>ControllerMapTo file endpoint\<close>: \<^verbatim>\<open>ControllerService.require(file).mapTo(endpoint)\<close>
    completed;
  \<^item> \<open>InjectorLoad\<close>, \<open>ControllerLoad\<close>, \<open>PrintRoutes\<close>: \<^verbatim>\<open>InjectorService.load()\<close>,
    \<^verbatim>\<open>controllerService.load()\<close>, \<^verbatim>\<open>routeService.printRoutes($log)\<close>.
  Lookups in the dependency-injection container (\<^verbatim>\<open>InjectorService.factory\<close>,
  \<^verbatim>\<open>InjectorService.get\<close>) change nothing the loader reads back and are not recorded.
\<close>

datatype event =
    Log level "jsval list"
  | CreateServer proto nat jsval
  | Listen proto jsval jsval
  | AppUse "jsval list"
  | AppSet string jsval
  | AppEngine string jsval
  | GlobSync string
  | ControllerMapTo string jsval
  | InjectorLoad
  | ControllerLoad
  | PrintRoutes

datatype injector = InjectorService

text \<open>
  The fields of \<^verbatim>\<open>ServerLoader\<close>: \<open>settings\<close> is the map of \<^verbatim>\<open>_settings\<close> (a JavaScript
  \<^verbatim>\<open>Map\<close>: distinct keys in insertion order), \<open>httpServer\<close> and \<open>httpsServer\<close> are the two
  listeners (\<open>None\<close> is \<^verbatim>\<open>undefined\<close>), \<open>injectorService\<close> is \<^verbatim>\<open>_injectorService\<close>. The
  Express application is known by the calls made on it, which are in the trace;
  \<open>listeners\<close> counts the listeners created so far and names the next one.
\<close>

record server_loader =
  settings :: "(string \<times> jsval) list"
  httpServer :: "nat option"
  httpsServer :: "nat option"
  injectorService :: "injector option"
  listeners :: nat
  trace :: "event list"

datatype levent = Listening | Failed jsval

text \<open>
  The collaborators whose code is outside this module, as parameters:
  \<^item> \<open>glob_sync\<close>: the files matching a pattern;
  \<^item> \<open>controller_import file endpoint\<close>: \<open>Some er\<close> when
    \<^verbatim>\<open>ControllerService.require(file).mapTo(endpoint)\<close> throws \<open>er\<close>;
  \<^item> \<open>injector_load\<close>, \<open>controller_load\<close>, \<open>resolve_serve_static\<close>: \<open>Some er\<close> when
    \<^verbatim>\<open>InjectorService.load()\<close>, \<^verbatim>\<open>controllerService.load()\<close>,
    \<^verbatim>\<open>require.resolve("serve-static")\<close> throw \<open>er\<close>;
  \<^item> \<open>address_port\<close>: what \<^verbatim>\<open>getHttpPort\<close> and \<^verbatim>\<open>getHttpsPort\<close> make of a port setting,
    the pair \<open>(address, port)\<close>;
  \<^item> \<open>listener_events\<close>: the \<^verbatim>\<open>listening\<close> and \<^verbatim>\<open>error\<close> events the two listeners emit
    once asked to listen, in the order they arrive;
  \<^item> \<open>provider_defaults\<close>: the map of a new \<^verbatim>\<open>ServerSettingsProvider\<close>.
\<close>

record env =
  glob_sync :: "string \<Rightarrow> string list"
  controller_import :: "string \<Rightarrow> jsval \<Rightarrow> jsval option"
  injector_load :: "jsval option"
  controller_load :: "jsval option"
  resolve_serve_static :: "jsval option"
  address_port :: "jsval \<Rightarrow> jsval \<times> jsval"
  listener_events :: "(proto \<times> levent) list"
  provider_defaults :: "(string \<times> jsval) list"

definition emit :: "event \<Rightarrow> server_loader \<Rightarrow> server_loader" where
  "emit ev s = s\<lparr>trace := trace s @ [ev]\<rparr>"

definition log :: "level \<Rightarrow> jsval list \<Rightarrow> server_loader \<Rightarrow> server_loader" where
  "log l args s = emit (Log l args) s"

text \<open>
  Modelled from the spec: the settings provider (\<^verbatim>\<open>ServerSettingsProvider\<close>, not among the
  sources) is a mutable key/value store with typed accessors. A setter writes its key, a
  getter reads it (undefined when absent).
\<close>

definition setting :: "string \<Rightarrow> (string \<times> jsval) list \<Rightarrow> jsval" where
  "setting k m = (case map_of m k of Some v \<Rightarrow> v | None \<Rightarrow> Undefined)"

definition set_setting :: "string \<Rightarrow> jsval \<Rightarrow> server_loader \<Rightarrow> server_loader" where
  "set_setting k v s = s\<lparr>settings := AList.update k v (settings s)\<rparr>"

text \<open>
  Modelled from the spec: \<^verbatim>\<open>_settings.set(settings)\<close> merges a settings object into the
  store, one key after the other.
\<close>

fun settings_set :: "(string \<times> jsval) list \<Rightarrow> (string \<times> jsval) list \<Rightarrow> (string \<times> jsval) list" where
  "settings_set [] m = m"
| "settings_set ((k, v) # kvs) m = settings_set kvs (AList.update k v m)"

text \<open>
  Modelled from the spec: the settings service (\<^verbatim>\<open>ServerSettingsService\<close>, built by
  \<^verbatim>\<open>$get()\<close>; neither is among the sources) reads the store the provider holds. So
  \<^verbatim>\<open>getSettingsService()\<close>, which registers the service in the container and fetches it,
  gives the entries of that store: what \<^verbatim>\<open>forEach\<close> iterates and the accessors read.
\<close>

definition getSettingsService :: "server_loader \<Rightarrow> (string \<times> jsval) list" where
  "getSettingsService s = settings s"

section \<open>Listeners\<close>

text \<open>
  A method that can throw returns the error thrown (\<open>None\<close> when it completes) with the
  loader as it leaves it. Reading a property of undefined or null is a type error.
\<close>

definition TypeError :: jsval where
  "TypeError = Err ''TypeError''"

definition createHttpServer :: "jsval \<Rightarrow> server_loader \<Rightarrow> server_loader" where
  "createHttpServer port s =
     (let h = listeners s;
          s1 = emit (CreateServer HTTP h Undefined) (s\<lparr>listeners := Suc h\<rparr>);
          s2 = s1\<lparr>httpServer := Some h\<rparr>
      in set_setting ''httpPort'' port s2)"

text \<open>
  \<^verbatim>\<open>createHttpsServer(options)\<close> creates the listener and assigns it, then reads
  \<^verbatim>\<open>options.port\<close>: with undefined or null options that read throws, after the listener
  was replaced and before the port is written.
\<close>

definition createHttpsServer :: "jsval \<Rightarrow> server_loader \<Rightarrow> jsval option \<times> server_loader" where
  "createHttpsServer options s =
     (let h = listeners s;
          s1 = emit (CreateServer HTTPS h options) (s\<lparr>listeners := Suc h\<rparr>);
          s2 = s1\<lparr>httpsServer := Some h\<rparr>
      in if options = Undefined \<or> options = Null then (Some TypeError, s2)
         else (None, set_setting ''httpsPort'' (js_get options ''port'') s2))"

section \<open>Registering middlewares\<close>

definition wrap_arg :: "jsval \<Rightarrow> jsval" where
  "wrap_arg arg = (case arg of Fn f \<Rightarrow> Fn (Built f) | _ \<Rightarrow> arg)"

definition use :: "jsval list \<Rightarrow> server_loader \<Rightarrow> server_loader" where
  "use args s =
     (let args' = (if injectorService s \<noteq> None then map wrap_arg args else args)
      in emit (AppUse args') s)"

definition set_app :: "string \<Rightarrow> jsval \<Rightarrow> server_loader \<Rightarrow> server_loader" where
  "set_app k val s = emit (AppSet k val) s"

definition engine :: "string \<Rightarrow> jsval \<Rightarrow> server_loader \<Rightarrow> server_loader" where
  "engine ext fn s = emit (AppEngine ext fn) s"

section \<open>Controller discovery\<close>

text \<open>\<^verbatim>\<open>path.replace(/\\/gi, "/")\<close>: every backslash becomes a slash.\<close>

definition normalize_path :: "string \<Rightarrow> string" where
  "normalize_path p = map (\<lambda>c. if c = CHR 0x5C then CHR ''/'' else c) p"

text \<open>
  The body of the loop of \<^verbatim>\<open>scan\<close> for one file: the debug line, then the import; an
  error thrown by the import is caught and logged.
\<close>

definition import_file :: "env \<Rightarrow> jsval \<Rightarrow> string \<Rightarrow> server_loader \<Rightarrow> server_loader" where
  "import_file e endpoint file s =
     (let s1 = log Debug [Str ''[TSED] Import file '', endpoint, Str '':'', Str file] s
      in case controller_import e file endpoint of
           None \<Rightarrow> emit (ControllerMapTo file endpoint) s1
         | Some er \<Rightarrow> log LError [er] s1)"

text \<open>The loop over the files, with the counter \<^verbatim>\<open>nbFiles\<close>.\<close>

fun scan_files :: "env \<Rightarrow> jsval \<Rightarrow> string list \<Rightarrow> nat \<times> server_loader \<Rightarrow> nat \<times> server_loader" where
  "scan_files e endpoint [] acc = acc"
| "scan_files e endpoint (file # files) (nbFiles, s) =
     scan_files e endpoint files (Suc nbFiles, import_file e endpoint file s)"

text \<open>
  \<^verbatim>\<open>scan(path, endpoint = this._settings.endpoint)\<close>: an undefined \<open>endpoint\<close> takes the
  default.
\<close>

definition scan :: "env \<Rightarrow> string \<Rightarrow> jsval \<Rightarrow> server_loader \<Rightarrow> server_loader" where
  "scan e path endpoint0 s =
     (let endpoint = (if endpoint0 = Undefined then setting ''endpoint'' (settings s) else endpoint0);
          files = glob_sync e (normalize_path path);
          s1 = emit (GlobSync (normalize_path path)) s;
          s2 = log Info [Str (''[TSED] Scan files : '' @ path)] s1
      in snd (scan_files e endpoint files (0, s2)))"

definition mount :: "env \<Rightarrow> string \<Rightarrow> string \<Rightarrow> server_loader \<Rightarrow> server_loader" where
  "mount e endpoint path s = scan e path (Str endpoint) s"

section \<open>Exceptions and loops\<close>

text \<open>
  \<open>for_each\<close> is \<^verbatim>\<open>forEach\<close> with a callback that can throw: the first error ends the
  loop.
\<close>

fun for_each ::
  "('a \<Rightarrow> server_loader \<Rightarrow> jsval option \<times> server_loader) \<Rightarrow> 'a list \<Rightarrow> server_loader
     \<Rightarrow> jsval option \<times> server_loader" where
  "for_each f [] s = (None, s)"
| "for_each f (x # xs) s =
     (case f x s of
        (None, s') \<Rightarrow> for_each f xs s'
      | (Some er, s') \<Rightarrow> (Some er, s'))"

section \<open>Autoload\<close>

text \<open>
  \<^verbatim>\<open>Object.assign(target, props)\<close>, recorded as a plain object: the own properties of the
  target with the assigned ones written over them.
\<close>

definition object_assign :: "jsval \<Rightarrow> (string \<times> jsval) list \<Rightarrow> jsval" where
  "object_assign target props =
     Obj (fold (\<lambda>(k, v). AList.update k v) props (object_entries target))"

text \<open>
  The closure \<^verbatim>\<open>bind\<close> of \<^verbatim>\<open>autoload\<close>; \<open>svc\<close> is the settings service, which is also the
  map handed to the callback of \<^verbatim>\<open>forEach\<close>. \<^verbatim>\<open>mount\<close> and \<^verbatim>\<open>scan\<close> are declared on
  strings and call \<^verbatim>\<open>path.replace\<close> first: a path that is not a string ends in a type
  error before anything else happens, and so do \<^verbatim>\<open>Object.keys\<close> of null or undefined
  and \<^verbatim>\<open>forEach\<close> on a value that is not an array. \<^verbatim>\<open>Object.assign\<close> writes the port into
  the options object the map holds.
\<close>

definition bind ::
  "env \<Rightarrow> (string \<times> jsval) list \<Rightarrow> string \<Rightarrow> jsval \<Rightarrow> server_loader
     \<Rightarrow> jsval option \<times> server_loader" where
  "bind e svc property val s =
     (if property = ''mount'' then
        (let m = setting ''mount'' svc
         in if m = Undefined \<or> m = Null then (Some TypeError, s)
            else for_each
                   (\<lambda>key s. case js_get val key of
                               Str path \<Rightarrow> (None, mount e key path s)
                             | _ \<Rightarrow> (Some TypeError, s))
                   (object_keys m) s)
      else if property = ''componentsScan'' then
        (case setting ''componentsScan'' svc of
           Arr dirs \<Rightarrow>
             for_each
               (\<lambda>componentDir s. case componentDir of
                                    Str path \<Rightarrow> (None, scan e path Undefined s)
                                  | _ \<Rightarrow> (Some TypeError, s))
               dirs s
         | _ \<Rightarrow> (Some TypeError, s))
      else if property = ''httpPort'' then
        (None, if httpServer s = None then createHttpServer val s else s)
      else if property = ''httpsPort'' then
        (if httpsServer s = None then
           (let opts = setting ''httpsOptions'' svc;
                options = object_assign (if truthy opts then opts else Obj []) [(''port'', val)];
                s1 = (case opts of Obj kvs \<Rightarrow> set_setting ''httpsOptions'' options s | _ \<Rightarrow> s)
            in createHttpsServer options s1)
         else (None, s))
      else (None, s))"

text \<open>The first \<^verbatim>\<open>forEach\<close> of \<^verbatim>\<open>autoload\<close>: one line of log for every pair.\<close>

definition log_setting :: "string \<times> jsval \<Rightarrow> event" where
  "log_setting kv = Log Info [Str (''[TSED] settings.'' @ fst kv @ '' =>''), snd kv]"

definition autoload_log :: "(string \<times> jsval) list \<Rightarrow> server_loader \<Rightarrow> server_loader" where
  "autoload_log svc s = fold (\<lambda>kv. emit (log_setting kv)) svc s"

text \<open>The second \<^verbatim>\<open>forEach\<close>: the pairs with a truthy value go to \<^verbatim>\<open>bind\<close>.\<close>

definition dispatch_setting ::
  "env \<Rightarrow> (string \<times> jsval) list \<Rightarrow> string \<times> jsval \<Rightarrow> server_loader
     \<Rightarrow> jsval option \<times> server_loader" where
  "dispatch_setting e svc kv s =
     (if truthy (snd kv) then bind e svc (fst kv) (snd kv) s else (None, s))"

definition autoload_dispatch ::
  "env \<Rightarrow> (string \<times> jsval) list \<Rightarrow> server_loader \<Rightarrow> jsval option \<times> server_loader" where
  "autoload_dispatch e svc s = for_each (dispatch_setting e svc) svc s"

definition autoload ::
  "env \<Rightarrow> (string \<times> jsval) list \<Rightarrow> server_loader \<Rightarrow> jsval option \<times> server_loader" where
  "autoload e st s =
     (let s1 = log Info [Str ''[TSED] Autoload configuration :''] s;
          s2 = s1\<lparr>settings := settings_set st (settings s1)\<rparr>;
          settingsService = getSettingsService s2
      in autoload_dispatch e settingsService (autoload_log settingsService s2))"

section \<open>Static directories\<close>

record response =
  headersSent :: bool

text \<open>
  What the handler installed for a mount path does with a request:
  \<open>ServeStatic dir\<close> is \<^verbatim>\<open>serveStatic(dir)(request, response, next)\<close>, the only branch that
  can write to the response; \<open>Next\<close> is \<^verbatim>\<open>next()\<close>.
\<close>

datatype handled = ServeStatic jsval | Next

definition static_mount_handler :: "jsval \<Rightarrow> string \<Rightarrow> jsval \<Rightarrow> response \<Rightarrow> handled" where
  "static_mount_handler mountDirectories key request res =
     (if \<not> headersSent res then ServeStatic (js_get mountDirectories key) else Next)"

definition mountStaticDirectories ::
  "env \<Rightarrow> jsval \<Rightarrow> server_loader \<Rightarrow> jsval option \<times> server_loader" where
  "mountStaticDirectories e mountDirectories s =
     (if truthy mountDirectories then
        (case resolve_serve_static e of
           Some er \<Rightarrow> (Some er, s)
         | None \<Rightarrow>
             (None, fold (\<lambda>key. use [Str key, Fn (StaticMount mountDirectories key)])
                      (object_keys mountDirectories) s))
      else (None, s))"

text \<open>
  What calling a closure of the loader's own does with a request; \<open>None\<close> for a function
  whose code is outside this module.
\<close>

fun handle_request :: "fnval \<Rightarrow> jsval \<Rightarrow> response \<Rightarrow> handled option" where
  "handle_request (StaticMount dirs key) request res =
     Some (static_mount_handler dirs key request res)"
| "handle_request f request res = None"

section \<open>The boot sequence\<close>

text \<open>
  What awaiting a value gives: the value a promise resolves with (or the value itself when
  it is no promise), the error it rejects with or that was thrown, or nothing, ever.
\<close>

datatype outcome = Resolved jsval | Rejected jsval | Pending

text \<open>
  The optional members of the subclass. A lifecycle hook takes its arguments and the
  loader, on which it may call anything, and ends in an outcome.
\<close>

type_synonym hook = "jsval list \<Rightarrow> server_loader \<Rightarrow> outcome \<times> server_loader"

record hooks =
  onInit :: "hook option"
  importMiddlewares :: "hook option"
  onMountingMiddlewares :: "hook option"
  afterRoutesInit :: "hook option"
  onReady :: "hook option"
  onServerInitError :: "hook option"
  onError :: "fnval option"
  isAuthenticated :: "fnval option"
  onAuth :: "fnval option"

text \<open>\<^verbatim>\<open>new Function\<close> called as a hook: nothing happens, undefined is returned.\<close>

definition empty_hook :: hook where
  "empty_hook args s = (Resolved Undefined, s)"

text \<open>
  One \<^verbatim>\<open>await\<close> or \<^verbatim>\<open>.then\<close> after another: the continuation runs once the first has
  resolved, and only then.
\<close>

definition await_then ::
  "outcome \<times> server_loader \<Rightarrow> (server_loader \<Rightarrow> outcome \<times> server_loader)
     \<Rightarrow> outcome \<times> server_loader" where
  "await_then r k =
     (case r of
        (Resolved v, s) \<Rightarrow> k s
      | (Rejected er, s) \<Rightarrow> (Rejected er, s)
      | (Pending, s) \<Rightarrow> (Pending, s))"

text \<open>
  The closure \<^verbatim>\<open>call\<close> of \<^verbatim>\<open>start\<close>:
  \<^verbatim>\<open>key in this ? this[key](...args) : elseFn\<close>. Without the member the result is the
  function \<open>elseFn\<close> itself.
\<close>

definition call :: "hook option \<Rightarrow> jsval \<Rightarrow> jsval list \<Rightarrow> server_loader \<Rightarrow> outcome \<times> server_loader" where
  "call member elseFn args s =
     (case member of
        Some f \<Rightarrow> f args s
      | None \<Rightarrow> (Resolved elseFn, s))"

definition load_controllers :: "env \<Rightarrow> server_loader \<Rightarrow> outcome \<times> server_loader" where
  "load_controllers e s =
     (let s1 = emit ControllerLoad (log Info [Str ''[TSED] Import controllers''] s)
      in case controller_load e of
           Some er \<Rightarrow> (Rejected er, s1)
         | None \<Rightarrow> (Resolved Undefined, emit PrintRoutes (log Info [Str ''[TSED] Routes mounted :''] s1)))"

definition mount_statics_then ::
  "env \<Rightarrow> jsval \<Rightarrow> hook \<Rightarrow> server_loader \<Rightarrow> outcome \<times> server_loader" where
  "mount_statics_then e serveStatic afterRoutes s =
     (case mountStaticDirectories e serveStatic s of
        (Some er, s') \<Rightarrow> (Rejected er, s')
      | (None, s') \<Rightarrow> afterRoutes [] s')"

definition install_error_handlers :: "hooks \<Rightarrow> server_loader \<Rightarrow> outcome \<times> server_loader" where
  "install_error_handlers h s =
     (let s1 = (case onError h of Some fnError \<Rightarrow> use [Fn (Bound fnError)] s | None \<Rightarrow> s)
      in (Resolved Undefined, use [Fn GlobalErrorHandlerMiddleware] s1))"

text \<open>
  \<^verbatim>\<open>initializeSettings\<close>. An error thrown by \<^verbatim>\<open>InjectorService.load()\<close> leaves the method
  before the promise chain is built; the \<^verbatim>\<open>await\<close> in \<^verbatim>\<open>start\<close> sees it as a rejection.
\<close>

definition initializeSettings :: "hooks \<Rightarrow> env \<Rightarrow> server_loader \<Rightarrow> outcome \<times> server_loader" where
  "initializeSettings h e s =
     (let settingsService = getSettingsService s;
          s1 = emit InjectorLoad (log Info [Str ''[TSED] Import services''] s)
      in case injector_load e of
           Some er \<Rightarrow> (Rejected er, s1)
         | None \<Rightarrow>
             (let s2 = s1\<lparr>injectorService := Some InjectorService\<rparr>;
                  onMountingMiddlewares' =
                    (case importMiddlewares h of
                       Some f \<Rightarrow> f
                     | None \<Rightarrow> (case onMountingMiddlewares h of Some f \<Rightarrow> f | None \<Rightarrow> empty_hook));
                  afterRoutesInit' = (case afterRoutesInit h of Some f \<Rightarrow> f | None \<Rightarrow> empty_hook)
              in await_then
                   (await_then
                      (await_then (onMountingMiddlewares' [] s2) (load_controllers e))
                      (mount_statics_then e (setting ''serveStatic'' settingsService) afterRoutesInit'))
                   (install_error_handlers h)))"

text \<open>
  The two promises of \<^verbatim>\<open>startServers\<close> under \<^verbatim>\<open>Promise.all\<close>, fed the events of the
  listeners in their order of arrival. \<open>started\<close> are the listeners with handlers,
  \<open>waiting\<close> those whose promise is not settled. A \<^verbatim>\<open>listening\<close> event logs and resolves
  its promise; an \<^verbatim>\<open>error\<close> event rejects its promise, which rejects the whole unless that
  promise was settled before. With nothing left to wait for the whole resolves; with
  no event left it never settles.
\<close>

definition listening_line :: "proto \<Rightarrow> jsval \<times> jsval \<Rightarrow> event" where
  "listening_line p ap =
     (case p of
        HTTP \<Rightarrow> Log Info [Str ''[TSED] HTTP Server listen on '', fst ap, Str '':'', snd ap]
      | HTTPS \<Rightarrow> Log Info [Str ''[TSED] HTTPs Server listen port '', fst ap, Str '':'', snd ap])"

fun await_listeners ::
  "(proto \<Rightarrow> jsval \<times> jsval) \<Rightarrow> proto list \<Rightarrow> proto list \<Rightarrow> (proto \<times> levent) list
     \<Rightarrow> server_loader \<Rightarrow> outcome \<times> server_loader" where
  "await_listeners ap started [] evs s = (Resolved (Arr (map (\<lambda>p. Undefined) started)), s)"
| "await_listeners ap started (w # ws) [] s = (Pending, s)"
| "await_listeners ap started (w # ws) ((p, ev) # evs) s =
     (if p \<notin> set started then await_listeners ap started (w # ws) evs s
      else case ev of
             Listening \<Rightarrow>
               await_listeners ap started (removeAll p (w # ws)) evs (emit (listening_line p (ap p)) s)
           | Failed er \<Rightarrow>
               (if p \<in> set (w # ws) then (Rejected er, s)
                else await_listeners ap started (w # ws) evs s))"

definition port_setting :: "proto \<Rightarrow> string" where
  "port_setting p = (case p of HTTP \<Rightarrow> ''httpPort'' | HTTPS \<Rightarrow> ''httpsPort'')"

definition start_line :: "proto \<Rightarrow> jsval \<times> jsval \<Rightarrow> event" where
  "start_line p ap =
     (case p of
        HTTP \<Rightarrow> Log Debug [Str ''[TSED] Start HTTP server on '', fst ap, Str '':'', snd ap]
      | HTTPS \<Rightarrow> Log Debug [Str ''[TSED] Start HTTPs server on '', fst ap, Str '':'', snd ap])"

text \<open>One of the two blocks of \<^verbatim>\<open>startServers\<close>: the debug line, then \<^verbatim>\<open>listen\<close>.\<close>

definition listen_on :: "proto \<Rightarrow> jsval \<times> jsval \<Rightarrow> server_loader \<Rightarrow> server_loader" where
  "listen_on p ap s = emit (Listen p (snd ap) (fst ap)) (emit (start_line p ap) s)"

definition startServers :: "env \<Rightarrow> server_loader \<Rightarrow> outcome \<times> server_loader" where
  "startServers e s =
     (let settingsService = getSettingsService s;
          ap = (\<lambda>p. address_port e (setting (port_setting p) settingsService));
          (promises1, s1) =
            (case httpServer s of
               None \<Rightarrow> ([], s)
             | Some srv \<Rightarrow> ([HTTP], listen_on HTTP (ap HTTP) s));
          (promises2, s2) =
            (case httpsServer s1 of
               None \<Rightarrow> (promises1, s1)
             | Some srv \<Rightarrow> (promises1 @ [HTTPS], listen_on HTTPS (ap HTTPS) s1))
      in await_listeners ap promises2 promises2 (listener_events e) s2)"

text \<open>The \<^verbatim>\<open>try\<close> block of \<^verbatim>\<open>start\<close>: four awaits in a row.\<close>

definition start_try :: "hooks \<Rightarrow> env \<Rightarrow> server_loader \<Rightarrow> outcome \<times> server_loader" where
  "start_try h e s =
     await_then
       (await_then
          (await_then (call (onInit h) (Fn EmptyFn) [] s) (initializeSettings h e))
          (startServers e))
       (call (onReady h) (Fn EmptyFn) [])"

text \<open>
  \<^verbatim>\<open>start\<close>: the \<^verbatim>\<open>try\<close> block, and for an error caught the value of
  \<^verbatim>\<open>call("$onServerInitError", () => { $log.error(...) }, err)\<close> returned. A run through
  the block returns undefined.
\<close>

definition start :: "hooks \<Rightarrow> env \<Rightarrow> server_loader \<Rightarrow> outcome \<times> server_loader" where
  "start h e s =
     (case start_try h e s of
        (Resolved v, s') \<Rightarrow> (Resolved Undefined, s')
      | (Rejected err, s') \<Rightarrow> call (onServerInitError h) (Fn (LogServerError err)) [err] s'
      | (Pending, s') \<Rightarrow> (Pending, s'))"

text \<open>What the arrow function \<open>LogServerError err\<close> does when it is called.\<close>

definition log_server_error :: "jsval \<Rightarrow> server_loader \<Rightarrow> server_loader" where
  "log_server_error err s = log LError [Str ''[TSED] HTTP Server error'', err] s"

section \<open>Construction\<close>

definition new_ServerLoader ::
  "hooks \<Rightarrow> env \<Rightarrow> (string \<times> jsval) list option \<Rightarrow> jsval option \<times> server_loader" where
  "new_ServerLoader h e metadata =
     (let auth = (case isAuthenticated h of
                    Some f \<Rightarrow> f
                  | None \<Rightarrow> (case onAuth h of Some f \<Rightarrow> f | None \<Rightarrow> EmptyFn));
          s0 = \<lparr>settings = AList.update ''authentification'' (Fn (Bound auth)) (provider_defaults e),
                httpServer = None, httpsServer = None, injectorService = None,
                listeners = 0, trace = []\<rparr>
      in case metadata of
           None \<Rightarrow> (None, s0)
         | Some st \<Rightarrow> autoload e st s0)"

section \<open>The pipeline as the specification words it\<close>

text \<open>
  The specification describes \<^verbatim>\<open>start\<close> as a pipeline of stages, each awaited strictly
  after the previous one completes. \<open>run_stages\<close> is that description: the stages run one
  after the other, each on the loader the previous one left, until one does not resolve.
  It gives the number of stages that ran, the outcome of the last of them and the loader.
\<close>

fun run_stages ::
  "(server_loader \<Rightarrow> outcome \<times> server_loader) list \<Rightarrow> jsval \<Rightarrow> server_loader
     \<Rightarrow> nat \<times> outcome \<times> server_loader" where
  "run_stages [] v s = (0, Resolved v, s)"
| "run_stages (stage # stages) v s =
     (case stage s of
        (Resolved v', s') \<Rightarrow> (case run_stages stages v' s' of (n, r) \<Rightarrow> (Suc n, r))
      | (Rejected er, s') \<Rightarrow> (Suc 0, Rejected er, s')
      | (Pending, s') \<Rightarrow> (Suc 0, Pending, s'))"

text \<open>The four stages of the specification, in its order.\<close>

definition boot_stages :: "hooks \<Rightarrow> env \<Rightarrow> (server_loader \<Rightarrow> outcome \<times> server_loader) list" where
  "boot_stages h e =
     [call (onInit h) (Fn EmptyFn) [],
      initializeSettings h e,
      startServers e,
      call (onReady h) (Fn EmptyFn) []]"

text \<open>The first event a listener emits, if it emits any.\<close>

definition first_event :: "proto \<Rightarrow> (proto \<times> levent) list \<Rightarrow> levent option" where
  "first_event p evs =
     (case filter (\<lambda>pe. fst pe = p) evs of
        [] \<Rightarrow> None
      | pe # rest \<Rightarrow> Some (snd pe))"

text \<open>An outcome without its value: resolved, rejected or never settled.\<close>

datatype settled = Fulfilled | Refused | Unsettled

fun kind :: "outcome \<Rightarrow> settled" where
  "kind (Resolved v) = Fulfilled"
| "kind (Rejected er) = Refused"
| "kind Pending = Unsettled"

section \<open>Reading the trace\<close>

text \<open>The files whose controllers were registered, in order.\<close>

fun mapped_file :: "event \<Rightarrow> string list" where
  "mapped_file (ControllerMapTo f ep) = [f]"
| "mapped_file ev = []"

definition registered :: "event list \<Rightarrow> string list" where
  "registered evs = concat (map mapped_file evs)"

text \<open>The lines of log of one level.\<close>

fun is_log :: "level \<Rightarrow> event \<Rightarrow> bool" where
  "is_log l (Log l' args) = (l = l')"
| "is_log l ev = False"

text \<open>The listeners created for a protocol, in order.\<close>

fun created_by :: "proto \<Rightarrow> event \<Rightarrow> nat list" where
  "created_by p (CreateServer q h opts) = (if p = q then [h] else [])"
| "created_by p ev = []"

definition created :: "proto \<Rightarrow> event list \<Rightarrow> nat list" where
  "created p evs = concat (map (created_by p) evs)"

text \<open>The patterns scanned, in order.\<close>

fun scanned :: "event \<Rightarrow> string list" where
  "scanned (GlobSync pattern) = [pattern]"
| "scanned ev = []"

definition scans :: "event list \<Rightarrow> string list" where
  "scans evs = concat (map scanned evs)"

text \<open>The events of one pass of the loop of \<^verbatim>\<open>scan\<close>, and of one whole scan.\<close>

definition file_events :: "env \<Rightarrow> jsval \<Rightarrow> string \<Rightarrow> event list" where
  "file_events e endpoint file =
     Log Debug [Str ''[TSED] Import file '', endpoint, Str '':'', Str file] #
     (case controller_import e file endpoint of
        None \<Rightarrow> [ControllerMapTo file endpoint]
      | Some er \<Rightarrow> [Log LError [er]])"

definition scan_events :: "env \<Rightarrow> string \<Rightarrow> jsval \<Rightarrow> event list" where
  "scan_events e path endpoint =
     GlobSync (normalize_path path) # Log Info [Str (''[TSED] Scan files : '' @ path)] #
     concat (map (file_events e endpoint) (glob_sync e (normalize_path path)))"

section \<open>Sample collaborators\<close>

text \<open>
  A file system with three controller files under one pattern, the second of which fails
  to import, and listeners that emit nothing; a loader that has done nothing yet: an
  empty settings store, no listener, the injector not initialised.
\<close>

definition sample_env :: env where
  "sample_env =
     \<lparr>glob_sync = (\<lambda>p. if p = ''ctrl/*.ts'' then [''a.ts'', ''b.ts'', ''c.ts''] else []),
      controller_import = (\<lambda>f ep. if f = ''b.ts'' then Some (Err ''bad module'') else None),
      injector_load = None,
      controller_load = None,
      resolve_serve_static = None,
      address_port = (\<lambda>v. (Str ''0.0.0.0'', v)),
      listener_events = [],
      provider_defaults = []\<rparr>"

definition new_loader :: server_loader where
  "new_loader =
     \<lparr>settings = [], httpServer = None, httpsServer = None, injectorService = None,
      listeners = 0, trace = []\<rparr>"

text \<open>A subclass with no optional member, and a hook that throws.\<close>

definition no_hooks :: hooks where
  "no_hooks =
     \<lparr>onInit = None, importMiddlewares = None, onMountingMiddlewares = None,
      afterRoutesInit = None, onReady = None, onServerInitError = None,
      onError = None, isAuthenticated = None, onAuth = None\<rparr>"

definition failing_hook :: hook where
  "failing_hook args s = (Rejected (Err ''import failed''), s)"

text \<open>A hook for \<^verbatim>\<open>$onServerInitError\<close> that returns the error it was given.\<close>

definition returning_hook :: hook where
  "returning_hook args s = (Resolved (case args of [] \<Rightarrow> Undefined | err # rest \<Rightarrow> err), s)"

text \<open>A loader with both listeners, as two settings of ports leave it.\<close>

definition two_listeners :: server_loader where
  "two_listeners =
     \<lparr>settings = [(''httpPort'', Num 8080), (''httpsPort'', Num 8443)],
      httpServer = Some 0, httpsServer = Some 1, injectorService = Some InjectorService,
      listeners = 2, trace = []\<rparr>"

section \<open>Controller discovery: the events of a scan\<close>

lemma emit_eq: "emit ev s = s\<lparr>trace := trace s @ [ev]\<rparr>"
  by (simp add: emit_def)

lemma import_file_eq:
  "import_file e ep f s = s\<lparr>trace := trace s @ file_events e ep f\<rparr>"
  by (simp add: import_file_def file_events_def log_def emit_def split: option.splits)

lemma scan_files_eq:
  "scan_files e ep files (n, s) =
     (n + length files, s\<lparr>trace := trace s @ concat (map (file_events e ep) files)\<rparr>)"
  by (induction files arbitrary: n s) (simp_all add: import_file_eq)

lemma scan_eq:
  "scan e path ep0 s =
     s\<lparr>trace := trace s @
          scan_events e path (if ep0 = Undefined then setting ''endpoint'' (settings s) else ep0)\<rparr>"
  by (simp add: scan_def scan_events_def scan_files_eq log_def emit_def Let_def)

lemma registered_file_events:
  "registered (concat (map (file_events e ep) files)) =
     filter (\<lambda>f. controller_import e f ep = None) files"
  by (induction files) (auto simp: registered_def file_events_def split: option.splits)

lemma errors_file_events:
  "length (filter (is_log LError) (concat (map (file_events e ep) files))) =
     length (filter (\<lambda>f. controller_import e f ep \<noteq> None) files)"
  by (induction files) (auto simp: file_events_def split: option.splits)

lemma debug_file_events:
  "length (filter (is_log Debug) (concat (map (file_events e ep) files))) = length files"
  by (induction files) (auto simp: file_events_def split: option.splits)

text \<open>
  C5. A scan over the \<open>N\<close> files matching a pattern, exactly one of which throws during
  import, attempts all \<open>N\<close> (the counter \<^verbatim>\<open>nbFiles\<close> ends at \<open>N\<close> and there are \<open>N\<close> debug
  lines), registers the other \<open>N - 1\<close> (every file but the failing one, in order), logs
  one error and returns: nothing of the loader but the trace has changed.
\<close>

theorem scan_one_failing_file:
  assumes files: "files = glob_sync e (normalize_path path)"
    and ep: "ep = (if endpoint = Undefined then setting ''endpoint'' (settings s) else endpoint)"
    and one: "length (filter (\<lambda>f. controller_import e f ep \<noteq> None) files) = 1"
    and new: "new = drop (length (trace s)) (trace (scan e path endpoint s))"
  shows "scan e path endpoint s = s\<lparr>trace := trace s @ new\<rparr>
       \<and> fst (scan_files e ep files (0, s')) = length files
       \<and> length (filter (is_log Debug) new) = length files
       \<and> registered new = filter (\<lambda>f. controller_import e f ep = None) files
       \<and> length (registered new) = length files - 1
       \<and> length (filter (is_log LError) new) = 1"
proof -
  let ?bad = "\<lambda>f. controller_import e f ep \<noteq> None"
  let ?per_file = "concat (map (file_events e ep) files)"
  have n: "new = scan_events e path ep"
    using new ep by (simp add: scan_eq)
  have n': "new = GlobSync (normalize_path path) #
                  Log Info [Str (''[TSED] Scan files : '' @ path)] # ?per_file"
    by (simp add: n scan_events_def files)
  have split: "length (filter (\<lambda>f. \<not> ?bad f) files) + length (filter ?bad files) = length files"
    using sum_length_filter_compl[of "\<lambda>f. \<not> ?bad f" files] by simp
  have reg: "registered new = filter (\<lambda>f. controller_import e f ep = None) files"
    using registered_file_events[of e ep files] by (simp add: n' registered_def)
  have "scan e path endpoint s = s\<lparr>trace := trace s @ new\<rparr>"
    by (simp add: scan_eq n ep)
  moreover have "fst (scan_files e ep files (0, s')) = length files"
    by (simp add: scan_files_eq)
  moreover have "length (filter (is_log Debug) new) = length files"
    by (simp add: n' debug_file_events)
  moreover have "length (registered new) = length files - 1"
    using split one by (simp add: reg)
  moreover have "length (filter (is_log LError) new) = 1"
    using one by (simp add: n' errors_file_events)
  ultimately show ?thesis using reg by simp
qed

theorem scan_one_failing_file_witness:
  "length (filter (\<lambda>f. controller_import sample_env f (Str ''/rest'') \<noteq> None)
             (glob_sync sample_env (normalize_path ''ctrl/*.ts''))) = 1
   \<and> registered (trace (scan sample_env ''ctrl/*.ts'' (Str ''/rest'') new_loader)) = [''a.ts'', ''c.ts'']
   \<and> length (filter (is_log LError)
                (trace (scan sample_env ''ctrl/*.ts'' (Str ''/rest'') new_loader))) = 1
   \<and> fst (scan_files sample_env (Str ''/rest'') [''a.ts'', ''b.ts'', ''c.ts''] (0, new_loader)) = 3"
proof -
  have files: "glob_sync sample_env (normalize_path ''ctrl/*.ts'') = [''a.ts'', ''b.ts'', ''c.ts'']"
    by (simp add: sample_env_def normalize_path_def)
  have one: "length (filter (\<lambda>f. controller_import sample_env f (Str ''/rest'') \<noteq> None)
                       [''a.ts'', ''b.ts'', ''c.ts'']) = 1"
    by (simp add: sample_env_def)
  have good: "filter (\<lambda>f. controller_import sample_env f (Str ''/rest'') = None)
                [''a.ts'', ''b.ts'', ''c.ts''] = [''a.ts'', ''c.ts'']"
    by (simp add: sample_env_def)
  have new: "trace (scan sample_env ''ctrl/*.ts'' (Str ''/rest'') new_loader) =
             drop (length (trace new_loader))
               (trace (scan sample_env ''ctrl/*.ts'' (Str ''/rest'') new_loader))"
    by (simp add: new_loader_def)
  show ?thesis
    using scan_one_failing_file[where e = sample_env and path = "''ctrl/*.ts''"
        and files = "[''a.ts'', ''b.ts'', ''c.ts'']" and endpoint = "Str ''/rest''"
        and ep = "Str ''/rest''" and s = new_loader and s' = new_loader, OF files[symmetric] _ one new]
      one good files
    by simp
qed

text \<open>
  C9. \<^verbatim>\<open>mount(endpoint, path)\<close> is \<^verbatim>\<open>scan(path, endpoint)\<close>: for every endpoint string and
  every path string the two leave the same loader, the one both return, with the same
  trace of effects.
\<close>

theorem mount_is_scan:
  "mount e endpoint path s = scan e path (Str endpoint) s"
  by (simp add: mount_def)

section \<open>Listeners and the dispatch of settings\<close>

lemma createHttpServer_eq:
  "createHttpServer port s =
     s\<lparr>listeners := Suc (listeners s),
       trace := trace s @ [CreateServer HTTP (listeners s) Undefined],
       httpServer := Some (listeners s),
       settings := AList.update ''httpPort'' port (settings s)\<rparr>"
  by (simp add: createHttpServer_def emit_def set_setting_def Let_def)

lemma createHttpsServer_eq:
  "createHttpsServer options s =
     (if options = Undefined \<or> options = Null
      then (Some TypeError,
            s\<lparr>listeners := Suc (listeners s),
              trace := trace s @ [CreateServer HTTPS (listeners s) options],
              httpsServer := Some (listeners s)\<rparr>)
      else (None,
            s\<lparr>listeners := Suc (listeners s),
              trace := trace s @ [CreateServer HTTPS (listeners s) options],
              httpsServer := Some (listeners s),
              settings := AList.update ''httpsPort'' (js_get options ''port'') (settings s)\<rparr>))"
  by (simp add: createHttpsServer_def emit_def set_setting_def Let_def)

lemma object_assign_is_object:
  "object_assign target props \<noteq> Undefined \<and> object_assign target props \<noteq> Null"
  by (simp add: object_assign_def)

lemma createHttpsServer_assigned:
  "createHttpsServer (object_assign target props) s =
     (None,
      s\<lparr>listeners := Suc (listeners s),
        trace := trace s @ [CreateServer HTTPS (listeners s) (object_assign target props)],
        httpsServer := Some (listeners s),
        settings := AList.update ''httpsPort'' (js_get (object_assign target props) ''port'')
                      (settings s)\<rparr>)"
  using object_assign_is_object[of target props] by (simp add: createHttpsServer_eq)

lemma created_append: "created p (xs @ ys) = created p xs @ created p ys"
  by (simp add: created_def)

lemma created_file_events: "created p (concat (map (file_events e ep) files)) = []"
  by (induction files) (auto simp: created_def file_events_def split: option.splits)

lemma created_scan_events: "created p (scan_events e path ep) = []"
  using created_file_events[of p e ep] by (simp add: scan_events_def created_def)

lemma for_each_rel:
  assumes refl: "\<And>s. R s s"
    and trans: "\<And>s s' s''. R s s' \<Longrightarrow> R s' s'' \<Longrightarrow> R s s''"
    and step: "\<And>x s. x \<in> set xs \<Longrightarrow> R s (snd (f x s))"
  shows "R s (snd (for_each f xs s))"
  using step
proof (induction xs arbitrary: s)
  case Nil
  then show ?case by (simp add: refl)
next
  case (Cons x xs)
  obtain r s' where fx: "f x s = (r, s')" by (cases "f x s")
  have 1: "R s s'" using Cons.prems[of x s] fx by simp
  show ?case
  proof (cases r)
    case None
    have "R s' (snd (for_each f xs s'))" using Cons.IH Cons.prems by simp
    then show ?thesis using 1 fx None trans by auto
  next
    case (Some er)
    then show ?thesis using 1 fx by simp
  qed
qed

text \<open>A step that only writes scan events to the trace.\<close>

lemma scans_frame:
  assumes "\<And>x s. x \<in> set xs \<Longrightarrow> \<exists>evs. snd (f x s) = s\<lparr>trace := trace s @ evs\<rparr> \<and> created HTTP evs = [] \<and> created HTTPS evs = []"
  shows "\<exists>evs. snd (for_each f xs s) = s\<lparr>trace := trace s @ evs\<rparr> \<and> created HTTP evs = [] \<and> created HTTPS evs = []"
proof (rule for_each_rel[where R = "\<lambda>s s'. \<exists>evs. s' = s\<lparr>trace := trace s @ evs\<rparr> \<and> created HTTP evs = [] \<and> created HTTPS evs = []"])
  fix s :: server_loader
  show "\<exists>evs. s = s\<lparr>trace := trace s @ evs\<rparr> \<and> created HTTP evs = [] \<and> created HTTPS evs = []"
    by (rule exI[of _ "[]"]) (simp add: created_def)
next
  fix s s' s'' :: server_loader
  assume "\<exists>evs. s' = s\<lparr>trace := trace s @ evs\<rparr> \<and> created HTTP evs = [] \<and> created HTTPS evs = []"
    and "\<exists>evs. s'' = s'\<lparr>trace := trace s' @ evs\<rparr> \<and> created HTTP evs = [] \<and> created HTTPS evs = []"
  then obtain a b where a: "s' = s\<lparr>trace := trace s @ a\<rparr>" "created HTTP a = []" "created HTTPS a = []"
    and b: "s'' = s'\<lparr>trace := trace s' @ b\<rparr>" "created HTTP b = []" "created HTTPS b = []" by blast
  show "\<exists>evs. s'' = s\<lparr>trace := trace s @ evs\<rparr> \<and> created HTTP evs = [] \<and> created HTTPS evs = []"
    by (rule exI[of _ "a @ b"]) (simp add: a b created_append)
next
  fix x s assume "x \<in> set xs"
  then show "\<exists>evs. snd (f x s) = s\<lparr>trace := trace s @ evs\<rparr> \<and> created HTTP evs = [] \<and> created HTTPS evs = []"
    using assms by blast
qed

lemma mount_step_frame:
  "\<exists>evs. snd (case js_get val key of Str path \<Rightarrow> (None, mount e key path s) | _ \<Rightarrow> (Some TypeError, s))
       = s\<lparr>trace := trace s @ evs\<rparr> \<and> created HTTP evs = [] \<and> created HTTPS evs = []"
proof (cases "\<exists>path. js_get val key = Str path")
  case True
  then obtain path where p: "js_get val key = Str path" by blast
  show ?thesis
    by (rule exI[of _ "scan_events e path (Str key)"]) (simp add: p mount_def scan_eq created_scan_events)
next
  case False
  then have "snd (case js_get val key of Str path \<Rightarrow> (None, mount e key path s) | _ \<Rightarrow> (Some TypeError, s)) = s"
    by (cases "js_get val key") simp_all
  then show ?thesis by (intro exI[of _ "[]"]) (simp add: created_def)
qed

lemma scan_step_frame:
  "\<exists>evs. snd (case componentDir of Str path \<Rightarrow> (None, scan e path Undefined s) | _ \<Rightarrow> (Some TypeError, s))
       = s\<lparr>trace := trace s @ evs\<rparr> \<and> created HTTP evs = [] \<and> created HTTPS evs = []"
proof (cases "\<exists>path. componentDir = Str path")
  case True
  then obtain path where p: "componentDir = Str path" by blast
  show ?thesis
    by (rule exI[of _ "scan_events e path (setting ''endpoint'' (settings s))"])
       (simp add: p scan_eq created_scan_events)
next
  case False
  then have "snd (case componentDir of Str path \<Rightarrow> (None, scan e path Undefined s) | _ \<Rightarrow> (Some TypeError, s)) = s"
    by (cases componentDir) simp_all
  then show ?thesis by (intro exI[of _ "[]"]) (simp add: created_def)
qed

lemma bind_other_frame:
  assumes "property \<noteq> ''httpPort''" "property \<noteq> ''httpsPort''"
  shows "\<exists>evs. snd (bind e svc property val s) = s\<lparr>trace := trace s @ evs\<rparr>
           \<and> created HTTP evs = [] \<and> created HTTPS evs = []"
proof -
  have triv: "\<exists>evs. s = s\<lparr>trace := trace s @ evs\<rparr> \<and> created HTTP evs = [] \<and> created HTTPS evs = []"
    by (rule exI[of _ "[]"]) (simp add: created_def)
  consider (m) "property = ''mount''" | (c) "property = ''componentsScan''"
    | (o) "property \<noteq> ''mount''" "property \<noteq> ''componentsScan''" by blast
  then show ?thesis
  proof cases
    case m
    show ?thesis
      using scans_frame[of "object_keys (setting ''mount'' svc)"
          "\<lambda>key s. case js_get val key of Str path \<Rightarrow> (None, mount e key path s) | _ \<Rightarrow> (Some TypeError, s)" s,
          OF mount_step_frame] triv
      by (simp add: bind_def m Let_def)
  next
    case c
    show ?thesis
    proof (cases "\<exists>dirs. setting ''componentsScan'' svc = Arr dirs")
      case True
      then obtain dirs where d: "setting ''componentsScan'' svc = Arr dirs" by blast
      show ?thesis
        using scans_frame[of dirs
          "\<lambda>componentDir s. case componentDir of Str path \<Rightarrow> (None, scan e path Undefined s) | _ \<Rightarrow> (Some TypeError, s)" s,
          OF scan_step_frame]
        by (simp add: bind_def c d)
    next
      case False
      then have "snd (bind e svc property val s) = s"
        by (cases "setting ''componentsScan'' svc") (simp_all add: bind_def c)
      then show ?thesis using triv by simp
    qed
  next
    case o
    then show ?thesis using assms triv by (simp add: bind_def)
  qed
qed


lemma created_single:
  "created p [CreateServer q h opts] = (if p = q then [h] else [])"
  by (simp add: created_def)

lemma bind_httpPort:
  "bind e svc ''httpPort'' val s = (None, if httpServer s = None then createHttpServer val s else s)"
  by (simp add: bind_def)

lemma bind_httpsPort:
  "bind e svc ''httpsPort'' val s =
     (if httpsServer s = None then
        (let opts = setting ''httpsOptions'' svc;
             options = object_assign (if truthy opts then opts else Obj []) [(''port'', val)];
             s1 = (case opts of Obj kvs \<Rightarrow> set_setting ''httpsOptions'' options s | _ \<Rightarrow> s)
         in createHttpsServer options s1)
      else (None, s))"
  by (simp add: bind_def)

lemma https_options_frame:
  "httpServer (case opts of Obj kvs \<Rightarrow> set_setting k options s | _ \<Rightarrow> s) = httpServer s
   \<and> httpsServer (case opts of Obj kvs \<Rightarrow> set_setting k options s | _ \<Rightarrow> s) = httpsServer s
   \<and> listeners (case opts of Obj kvs \<Rightarrow> set_setting k options s | _ \<Rightarrow> s) = listeners s
   \<and> trace (case opts of Obj kvs \<Rightarrow> set_setting k options s | _ \<Rightarrow> s) = trace s"
  by (cases opts) (simp_all add: set_setting_def)

lemma dispatch_http:
  "httpServer (snd (dispatch_setting e svc kv s)) =
     (if fst kv = ''httpPort'' \<and> truthy (snd kv) \<and> httpServer s = None
      then Some (listeners s) else httpServer s)
   \<and> created HTTP (trace (snd (dispatch_setting e svc kv s))) =
     created HTTP (trace s) @
     (if fst kv = ''httpPort'' \<and> truthy (snd kv) \<and> httpServer s = None then [listeners s] else [])"
proof -
  consider (falsy) "\<not> truthy (snd kv)"
    | (http) "truthy (snd kv)" "fst kv = ''httpPort''"
    | (https) "truthy (snd kv)" "fst kv = ''httpsPort''"
    | (other) "truthy (snd kv)" "fst kv \<noteq> ''httpPort''" "fst kv \<noteq> ''httpsPort''"
    by blast
  then show ?thesis
  proof cases
    case falsy
    then show ?thesis by (simp add: dispatch_setting_def)
  next
    case http
    then show ?thesis
      by (simp add: dispatch_setting_def bind_httpPort createHttpServer_eq created_append created_single)
  next
    case https
    then show ?thesis
      by (simp add: dispatch_setting_def bind_httpsPort createHttpsServer_assigned created_append
          created_single https_options_frame Let_def)
  next
    case other
    obtain evs where "snd (bind e svc (fst kv) (snd kv) s) = s\<lparr>trace := trace s @ evs\<rparr>"
      "created HTTP evs = []"
      using bind_other_frame[OF other(2,3)] by blast
    then show ?thesis using other by (simp add: dispatch_setting_def created_append)
  qed
qed

lemma dispatch_https:
  "httpsServer (snd (dispatch_setting e svc kv s)) =
     (if fst kv = ''httpsPort'' \<and> truthy (snd kv) \<and> httpsServer s = None
      then Some (listeners s) else httpsServer s)
   \<and> created HTTPS (trace (snd (dispatch_setting e svc kv s))) =
     created HTTPS (trace s) @
     (if fst kv = ''httpsPort'' \<and> truthy (snd kv) \<and> httpsServer s = None then [listeners s] else [])"
proof -
  consider (falsy) "\<not> truthy (snd kv)"
    | (http) "truthy (snd kv)" "fst kv = ''httpPort''"
    | (https) "truthy (snd kv)" "fst kv = ''httpsPort''"
    | (other) "truthy (snd kv)" "fst kv \<noteq> ''httpPort''" "fst kv \<noteq> ''httpsPort''"
    by blast
  then show ?thesis
  proof cases
    case falsy
    then show ?thesis by (simp add: dispatch_setting_def)
  next
    case http
    then show ?thesis
      by (simp add: dispatch_setting_def bind_httpPort createHttpServer_eq created_append created_single)
  next
    case https
    then show ?thesis
      by (simp add: dispatch_setting_def bind_httpsPort createHttpsServer_assigned created_append
          created_single https_options_frame Let_def)
  next
    case other
    obtain evs where "snd (bind e svc (fst kv) (snd kv) s) = s\<lparr>trace := trace s @ evs\<rparr>"
      "created HTTPS evs = []"
      using bind_other_frame[OF other(2,3)] by blast
    then show ?thesis using other by (simp add: dispatch_setting_def created_append)
  qed
qed

lemma dispatch_grows:
  "\<exists>evs. trace (snd (dispatch_setting e svc kv s)) = trace s @ evs"
proof -
  consider (falsy) "\<not> truthy (snd kv)"
    | (http) "truthy (snd kv)" "fst kv = ''httpPort''"
    | (https) "truthy (snd kv)" "fst kv = ''httpsPort''"
    | (other) "truthy (snd kv)" "fst kv \<noteq> ''httpPort''" "fst kv \<noteq> ''httpsPort''"
    by blast
  then show ?thesis
  proof cases
    case falsy
    then show ?thesis by (simp add: dispatch_setting_def)
  next
    case http
    then show ?thesis
      by (simp add: dispatch_setting_def bind_httpPort createHttpServer_eq)
  next
    case https
    then show ?thesis
      by (simp add: dispatch_setting_def bind_httpsPort createHttpsServer_assigned https_options_frame Let_def)
  next
    case other
    obtain evs where "snd (bind e svc (fst kv) (snd kv) s) = s\<lparr>trace := trace s @ evs\<rparr>"
      using bind_other_frame[OF other(2,3)] by blast
    then show ?thesis using other by (simp add: dispatch_setting_def)
  qed
qed

lemma autoload_dispatch_grows:
  "\<exists>evs. trace (snd (for_each (dispatch_setting e svc) kvs s)) = trace s @ evs"
proof (rule for_each_rel[where R = "\<lambda>s s'. \<exists>evs. trace s' = trace s @ evs"])
  fix s s' s'' :: server_loader
  assume "\<exists>evs. trace s' = trace s @ evs" "\<exists>evs. trace s'' = trace s' @ evs"
  then show "\<exists>evs. trace s'' = trace s @ evs" by auto
qed (simp_all add: dispatch_grows)

lemma autoload_dispatch_keeps_http:
  assumes "httpServer s \<noteq> None"
  shows "httpServer (snd (for_each (dispatch_setting e svc) kvs s)) = httpServer s
       \<and> created HTTP (trace (snd (for_each (dispatch_setting e svc) kvs s))) = created HTTP (trace s)"
proof -
  have "httpServer s \<noteq> None \<longrightarrow>
        httpServer (snd (for_each (dispatch_setting e svc) kvs s)) = httpServer s
      \<and> created HTTP (trace (snd (for_each (dispatch_setting e svc) kvs s))) = created HTTP (trace s)"
    by (rule for_each_rel[where R = "\<lambda>s s'. httpServer s \<noteq> None \<longrightarrow>
          httpServer s' = httpServer s \<and> created HTTP (trace s') = created HTTP (trace s)"])
       (auto simp: dispatch_http)
  then show ?thesis using assms by simp
qed

lemma autoload_dispatch_keeps_https:
  assumes "httpsServer s \<noteq> None"
  shows "httpsServer (snd (for_each (dispatch_setting e svc) kvs s)) = httpsServer s
       \<and> created HTTPS (trace (snd (for_each (dispatch_setting e svc) kvs s))) = created HTTPS (trace s)"
proof -
  have "httpsServer s \<noteq> None \<longrightarrow>
        httpsServer (snd (for_each (dispatch_setting e svc) kvs s)) = httpsServer s
      \<and> created HTTPS (trace (snd (for_each (dispatch_setting e svc) kvs s))) = created HTTPS (trace s)"
    by (rule for_each_rel[where R = "\<lambda>s s'. httpsServer s \<noteq> None \<longrightarrow>
          httpsServer s' = httpsServer s \<and> created HTTPS (trace s') = created HTTPS (trace s)"])
       (auto simp: dispatch_https)
  then show ?thesis using assms by simp
qed

lemma autoload_dispatch_no_truthy_port:
  assumes "\<forall>v. (''httpPort'', v) \<in> set kvs \<longrightarrow> \<not> truthy v"
  shows "created HTTP (trace (snd (for_each (dispatch_setting e svc) kvs s))) = created HTTP (trace s)"
proof (rule for_each_rel[where R = "\<lambda>s s'. created HTTP (trace s') = created HTTP (trace s)"])
  fix x s assume x: "x \<in> set kvs"
  obtain k v where kv: "x = (k, v)" by (cases x)
  have "\<not> (fst x = ''httpPort'' \<and> truthy (snd x))"
    using assms x by (auto simp: kv)
  then show "created HTTP (trace (snd (dispatch_setting e svc x s))) = created HTTP (trace s)"
    using dispatch_http[of e svc x s] by auto
qed simp_all

lemma autoload_log_eq:
  "autoload_log svc s = s\<lparr>trace := trace s @ map log_setting svc\<rparr>"
  unfolding autoload_log_def
  by (induction svc arbitrary: s) (simp_all add: emit_eq)

lemma autoload_eq:
  "autoload e st s =
     autoload_dispatch e (settings_set st (settings s))
       (s\<lparr>settings := settings_set st (settings s),
          trace := trace s @ Log Info [Str ''[TSED] Autoload configuration :''] #
                   map log_setting (settings_set st (settings s))\<rparr>)"
  by (simp add: autoload_def autoload_log_eq log_def emit_eq getSettingsService_def Let_def)


lemma for_each_total:
  assumes "\<And>x s. x \<in> set xs \<Longrightarrow> f x s = (None, s\<lparr>trace := trace s @ g (settings s) x\<rparr>)"
  shows "for_each f xs s = (None, s\<lparr>trace := trace s @ concat (map (g (settings s)) xs)\<rparr>)"
  using assms by (induction xs arbitrary: s) simp_all

lemma scans_Nil: "scans [] = []"
  by (simp add: scans_def)

lemma scans_append: "scans (xs @ ys) = scans xs @ scans ys"
  by (simp add: scans_def)

lemma scans_file_events: "scans (concat (map (file_events e ep) files)) = []"
  by (induction files) (auto simp: scans_def file_events_def split: option.splits)

lemma scans_scan_events: "scans (scan_events e path ep) = [normalize_path path]"
  using scans_file_events[of e ep] by (simp add: scan_events_def scans_def)

lemma scans_mounts:
  "scans (concat (map (\<lambda>(k, p). scan_events e p (Str k)) mounts)) = map (\<lambda>(k, p). normalize_path p) mounts"
  by (induction mounts) (auto simp: scans_append scans_scan_events scans_Nil)

lemma scans_dirs:
  "scans (concat (map (\<lambda>p. scan_events e p ep) dirs)) = map normalize_path dirs"
  by (induction dirs) (auto simp: scans_append scans_scan_events scans_Nil)

lemma js_get_mounts:
  assumes "distinct (map fst mounts)" "(k, p) \<in> set mounts"
  shows "js_get (Obj (map (\<lambda>(k, p). (k, Str p)) mounts)) k = Str p"
proof -
  have d: "distinct (map fst (map (\<lambda>(k, p). (k, Str p)) mounts))"
    using assms(1) by (simp add: comp_def case_prod_unfold)
  have "(k, Str p) \<in> set (map (\<lambda>(k, p). (k, Str p)) mounts)"
    using assms(2) by force
  then have "map_of (map (\<lambda>(k, p). (k, Str p)) mounts) k = Some (Str p)"
    using d by simp
  then show ?thesis by (simp add: js_get_def)
qed

lemma bind_mount_eq:
  assumes d: "distinct (map fst mounts)"
    and m: "setting ''mount'' svc = Obj (map (\<lambda>(k, p). (k, Str p)) mounts)"
  shows "bind e svc ''mount'' (Obj (map (\<lambda>(k, p). (k, Str p)) mounts)) s =
           (None, s\<lparr>trace := trace s @ concat (map (\<lambda>(k, p). scan_events e p (Str k)) mounts)\<rparr>)"
proof -
  let ?val = "Obj (map (\<lambda>(k, p). (k, Str p)) mounts)"
  let ?f = "\<lambda>key s. case js_get ?val key of
                      Str path \<Rightarrow> (None, mount e key path s)
                    | _ \<Rightarrow> (Some TypeError, s)"
  let ?g = "\<lambda>(m :: (string \<times> jsval) list) kp. scan_events e (snd kp) (Str (fst kp))"
  have step: "\<And>kp s. kp \<in> set mounts \<Longrightarrow>
      (?f \<circ> fst) kp s = (None, s\<lparr>trace := trace s @ ?g (settings s) kp\<rparr>)"
  proof -
    fix kp :: "string \<times> string" and s :: server_loader
    assume "kp \<in> set mounts"
    then have "js_get ?val (fst kp) = Str (snd kp)"
      using js_get_mounts[OF d, of "fst kp" "snd kp"] by simp
    then show "(?f \<circ> fst) kp s = (None, s\<lparr>trace := trace s @ ?g (settings s) kp\<rparr>)"
      by (simp add: mount_def scan_eq)
  qed
  have map_fe: "\<And>f xs s. for_each f (map fst xs) s = for_each (f \<circ> fst) (xs :: (string \<times> string) list) s"
  proof -
    fix f :: "string \<Rightarrow> server_loader \<Rightarrow> jsval option \<times> server_loader"
      and xs :: "(string \<times> string) list" and s
    show "for_each f (map fst xs) s = for_each (f \<circ> fst) xs s"
      by (induction xs arbitrary: s) (simp_all split: prod.splits option.splits)
  qed
  have keys: "object_keys ?val = map fst mounts"
    by (simp add: object_keys_def comp_def case_prod_unfold)
  have "for_each ?f (map fst mounts) s =
        (None, s\<lparr>trace := trace s @ concat (map (?g (settings s)) mounts)\<rparr>)"
    unfolding map_fe by (rule for_each_total[where g = ?g]) (rule step)
  then have r: "for_each ?f (map fst mounts) s =
        (None, s\<lparr>trace := trace s @ concat (map (\<lambda>(k, p). scan_events e p (Str k)) mounts)\<rparr>)"
    by (simp add: case_prod_unfold)
  have b: "bind e svc ''mount'' ?val s = for_each ?f (object_keys ?val) s"
    by (simp add: bind_def m Let_def)
  show ?thesis unfolding b keys by (rule r)
qed

lemma bind_componentsScan_eq:
  assumes m: "setting ''componentsScan'' svc = Arr (map Str dirs)"
  shows "bind e svc ''componentsScan'' val s =
           (None, s\<lparr>trace := trace s @
               concat (map (\<lambda>p. scan_events e p (setting ''endpoint'' (settings s))) dirs)\<rparr>)"
proof -
  let ?f = "\<lambda>componentDir s. case componentDir of
                      Str path \<Rightarrow> (None, scan e path Undefined s)
                    | _ \<Rightarrow> (Some TypeError, s)"
  let ?g = "\<lambda>(m :: (string \<times> jsval) list) d.
               (case d of Str p \<Rightarrow> scan_events e p (setting ''endpoint'' m) | _ \<Rightarrow> [])"
  have "for_each ?f (map Str dirs) s =
        (None, s\<lparr>trace := trace s @ concat (map (?g (settings s)) (map Str dirs))\<rparr>)"
    by (rule for_each_total[where g = ?g]) (auto simp: scan_eq)
  then show ?thesis
    by (simp add: bind_def m comp_def)
qed

lemma js_get_assigned_port:
  "js_get (object_assign target [(''port'', v)]) ''port'' = v"
  by (simp add: js_get_def object_assign_def update_conv')

section \<open>Registering middlewares\<close>

text \<open>
  C6. \<^verbatim>\<open>use(...args)\<close> makes one registration on the application and changes nothing else.
  With the injector initialised every argument that is a function is replaced by its
  handler-builder wrapping and every other argument is passed as it is; without the
  injector all the arguments are passed as they are.
\<close>

theorem use_wraps_functions:
  "use args s =
     s\<lparr>trace := trace s @ [AppUse (if injectorService s \<noteq> None then map wrap_arg args else args)]\<rparr>
   \<and> (\<forall>arg. is_function arg \<longrightarrow> (\<exists>f. arg = Fn f \<and> wrap_arg arg = Fn (Built f)))
   \<and> (\<forall>arg. \<not> is_function arg \<longrightarrow> wrap_arg arg = arg)"
proof -
  have "\<And>arg. is_function arg \<Longrightarrow> \<exists>f. arg = Fn f \<and> wrap_arg arg = Fn (Built f)"
    by (case_tac arg) (simp_all add: wrap_arg_def)
  moreover have "\<And>arg. \<not> is_function arg \<Longrightarrow> wrap_arg arg = arg"
    by (case_tac arg) (simp_all add: wrap_arg_def)
  ultimately show ?thesis
    by (simp add: use_def emit_eq Let_def)
qed

theorem use_wraps_functions_witness:
  "trace (use [Str ''/docs'', Fn (UserFn 0)] (new_loader\<lparr>injectorService := Some InjectorService\<rparr>))
     = [AppUse [Str ''/docs'', Fn (Built (UserFn 0))]]
   \<and> trace (use [Str ''/docs'', Fn (UserFn 0)] new_loader) = [AppUse [Str ''/docs'', Fn (UserFn 0)]]"
proof -
  have str: "wrap_arg (Str ''/docs'') = Str ''/docs''"
    using use_wraps_functions[of "[]" new_loader] by simp
  have "\<exists>f. Fn (UserFn 0) = Fn f \<and> wrap_arg (Fn (UserFn 0)) = Fn (Built f)"
    using use_wraps_functions[of "[]" new_loader] is_function.simps(1) by blast
  then have fn: "wrap_arg (Fn (UserFn 0)) = Fn (Built (UserFn 0))" by simp
  show ?thesis
    using use_wraps_functions[of "[Str ''/docs'', Fn (UserFn 0)]" new_loader]
      use_wraps_functions[of "[Str ''/docs'', Fn (UserFn 0)]" "new_loader\<lparr>injectorService := Some InjectorService\<rparr>"]
    by (simp add: str fn new_loader_def)
qed

section \<open>Creating listeners\<close>

text \<open>
  C2, as stated, fails for the direct call: on a loader that has an HTTP listener, a second
  \<^verbatim>\<open>createHttpServer\<close> creates a second listener, which replaces the first, and rebinds
  the port.
\<close>

theorem second_createHttpServer_counterexample:
  "httpServer (createHttpServer (Num 8000) new_loader) = Some 0
   \<and> created HTTP (trace (createHttpServer (Num 9000) (createHttpServer (Num 8000) new_loader))) = [0, 1]
   \<and> httpServer (createHttpServer (Num 9000) (createHttpServer (Num 8000) new_loader)) = Some 1
   \<and> setting ''httpPort'' (settings (createHttpServer (Num 9000) (createHttpServer (Num 8000) new_loader))) = Num 9000"
  by (simp add: createHttpServer_eq new_loader_def created_def setting_def)

text \<open>
  C2, amended. On a loader that has an HTTP listener the dispatch of \<^verbatim>\<open>httpPort\<close> by
  \<^verbatim>\<open>autoload\<close> is a no-op behind the check that the listener exists: \<^verbatim>\<open>bind\<close> leaves the
  loader as it is, and a whole \<^verbatim>\<open>autoload\<close> creates no HTTP listener and keeps the one
  there is; the same holds of \<^verbatim>\<open>httpsPort\<close> and the HTTPS listener. The direct calls
  \<^verbatim>\<open>createHttpServer\<close> and \<^verbatim>\<open>createHttpsServer\<close> have no such check: each call creates a
  new listener and makes it the loader's. \<^verbatim>\<open>createHttpServer\<close> then writes its port into
  the settings; \<^verbatim>\<open>createHttpsServer\<close> writes \<^verbatim>\<open>options.port\<close> when the options are neither
  undefined nor null, and otherwise throws a type error with the new listener in place
  and the settings as they were.
\<close>

theorem autoload_keeps_existing_listener:
  "(httpServer s \<noteq> None \<longrightarrow>
      bind e svc ''httpPort'' v s = (None, s)
    \<and> httpServer (snd (autoload e st s)) = httpServer s
    \<and> created HTTP (trace (snd (autoload e st s))) = created HTTP (trace s))
   \<and> (httpsServer s \<noteq> None \<longrightarrow>
      bind e svc ''httpsPort'' v s = (None, s)
    \<and> httpsServer (snd (autoload e st s)) = httpsServer s
    \<and> created HTTPS (trace (snd (autoload e st s))) = created HTTPS (trace s))
   \<and> httpServer (createHttpServer port s) = Some (listeners s)
   \<and> created HTTP (trace (createHttpServer port s)) = created HTTP (trace s) @ [listeners s]
   \<and> setting ''httpPort'' (settings (createHttpServer port s)) = port
   \<and> httpsServer (snd (createHttpsServer options s)) = Some (listeners s)
   \<and> created HTTPS (trace (snd (createHttpsServer options s))) = created HTTPS (trace s) @ [listeners s]
   \<and> (options \<noteq> Undefined \<and> options \<noteq> Null \<longrightarrow>
        fst (createHttpsServer options s) = None
      \<and> setting ''httpsPort'' (settings (snd (createHttpsServer options s))) = js_get options ''port'')
   \<and> (options = Undefined \<or> options = Null \<longrightarrow>
        fst (createHttpsServer options s) = Some TypeError
      \<and> settings (snd (createHttpsServer options s)) = settings s)"
proof -
  let ?svc = "settings_set st (settings s)"
  let ?s3 = "s\<lparr>settings := ?svc,
                trace := trace s @ Log Info [Str ''[TSED] Autoload configuration :''] #
                         map log_setting ?svc\<rparr>"
  have logs: "created p (Log Info [Str ''[TSED] Autoload configuration :''] # map log_setting ?svc) = []" for p
    by (simp add: created_def log_setting_def comp_def)
  have a: "autoload e st s = for_each (dispatch_setting e ?svc) ?svc ?s3"
    by (simp add: autoload_eq autoload_dispatch_def)
  have http: "httpServer (snd (autoload e st s)) = httpServer s
       \<and> created HTTP (trace (snd (autoload e st s))) = created HTTP (trace s)"
    if "httpServer s \<noteq> None"
    using autoload_dispatch_keeps_http[of ?s3 e ?svc ?svc] that logs[of HTTP]
    by (simp add: a created_append)
  have https: "httpsServer (snd (autoload e st s)) = httpsServer s
       \<and> created HTTPS (trace (snd (autoload e st s))) = created HTTPS (trace s)"
    if "httpsServer s \<noteq> None"
    using autoload_dispatch_keeps_https[of ?s3 e ?svc ?svc] that logs[of HTTPS]
    by (simp add: a created_append)
  have direct: "httpServer (createHttpServer port s) = Some (listeners s)
     \<and> created HTTP (trace (createHttpServer port s)) = created HTTP (trace s) @ [listeners s]
     \<and> setting ''httpPort'' (settings (createHttpServer port s)) = port"
    by (simp add: createHttpServer_eq created_append created_single setting_def update_conv')
  have secure: "httpsServer (snd (createHttpsServer options s)) = Some (listeners s)
     \<and> created HTTPS (trace (snd (createHttpsServer options s))) = created HTTPS (trace s) @ [listeners s]"
    by (simp add: createHttpsServer_eq created_append created_single)
  have written: "fst (createHttpsServer options s) = None
      \<and> setting ''httpsPort'' (settings (snd (createHttpsServer options s))) = js_get options ''port''"
    if "options \<noteq> Undefined \<and> options \<noteq> Null"
    using that by (simp add: createHttpsServer_eq setting_def update_conv')
  have thrown: "fst (createHttpsServer options s) = Some TypeError
      \<and> settings (snd (createHttpsServer options s)) = settings s"
    if "options = Undefined \<or> options = Null"
    using that by (auto simp: createHttpsServer_eq)
  have b1: "bind e svc ''httpPort'' v s = (None, s)" if "httpServer s \<noteq> None"
    using that by (auto simp: bind_httpPort)
  have b2: "bind e svc ''httpsPort'' v s = (None, s)" if "httpsServer s \<noteq> None"
    using that by (auto simp: bind_httpsPort)
  show ?thesis
    using http https direct secure written thrown b1 b2 by blast
qed

theorem autoload_keeps_existing_listener_witness:
  "httpServer (createHttpServer (Num 8000) new_loader) \<noteq> None
   \<and> httpsServer (snd (createHttpsServer (Obj [(''port'', Num 8443)]) new_loader)) \<noteq> None
   \<and> bind sample_env [] ''httpPort'' (Num 9000) (createHttpServer (Num 8000) new_loader)
       = (None, createHttpServer (Num 8000) new_loader)
   \<and> created HTTP (trace (snd (autoload sample_env [(''httpPort'', Num 9000)]
        (createHttpServer (Num 8000) new_loader)))) = [0]
   \<and> created HTTPS (trace (snd (autoload sample_env [(''httpsPort'', Num 9443)]
        (snd (createHttpsServer (Obj [(''port'', Num 8443)]) new_loader))))) = [0]
   \<and> fst (createHttpsServer (Obj [(''port'', Num 8443)]) new_loader) = None
   \<and> setting ''httpsPort'' (settings (snd (createHttpsServer (Obj [(''port'', Num 8443)]) new_loader)))
       = Num 8443
   \<and> fst (createHttpsServer Undefined new_loader) = Some TypeError
   \<and> httpsServer (snd (createHttpsServer Undefined new_loader)) = Some 0
   \<and> settings (snd (createHttpsServer Undefined new_loader)) = []"
proof -
  let ?http = "createHttpServer (Num 8000) new_loader"
  let ?https = "snd (createHttpsServer (Obj [(''port'', Num 8443)]) new_loader)"
  have 1: "httpServer ?http \<noteq> None"
    by (simp add: createHttpServer_eq)
  have 2: "httpsServer ?https \<noteq> None"
    by (simp add: createHttpsServer_eq)
  have 3: "created HTTP (trace ?http) = [0]"
    by (simp add: createHttpServer_eq created_def new_loader_def)
  have 4: "created HTTPS (trace ?https) = [0]"
    by (simp add: createHttpsServer_eq created_def new_loader_def)
  have 5: "Obj [(''port'', Num 8443)] \<noteq> Undefined \<and> Obj [(''port'', Num 8443)] \<noteq> Null"
    by simp
  have 6: "js_get (Obj [(''port'', Num 8443)]) ''port'' = Num 8443"
    by (simp add: js_get_def)
  have 7: "listeners new_loader = 0 \<and> settings new_loader = []"
    by (simp add: new_loader_def)
  have a: "bind sample_env [] ''httpPort'' (Num 9000) ?http = (None, ?http)
      \<and> created HTTP (trace (snd (autoload sample_env [(''httpPort'', Num 9000)] ?http))) = [0]"
    using autoload_keeps_existing_listener[of ?http sample_env "[]" "Num 9000"
        "[(''httpPort'', Num 9000)]", THEN conjunct1] 1 3
    by simp
  have b: "created HTTPS (trace (snd (autoload sample_env [(''httpsPort'', Num 9443)] ?https))) = [0]"
    using autoload_keeps_existing_listener[of ?https sample_env "[]" "Num 9443"
        "[(''httpsPort'', Num 9443)]", THEN conjunct2, THEN conjunct1] 2 4
    by simp
  note D1 = autoload_keeps_existing_listener[where s = new_loader
      and options = "Obj [(''port'', Num 8443)]", THEN conjunct2, THEN conjunct2,
      THEN conjunct2, THEN conjunct2, THEN conjunct2]
  note D2 = autoload_keeps_existing_listener[where s = new_loader and options = Undefined,
      THEN conjunct2, THEN conjunct2, THEN conjunct2, THEN conjunct2, THEN conjunct2]
  have c: "fst (createHttpsServer (Obj [(''port'', Num 8443)]) new_loader) = None
      \<and> setting ''httpsPort'' (settings ?https) = Num 8443"
    using D1[THEN conjunct2, THEN conjunct2, THEN conjunct1] 5 6
    by simp
  have d: "fst (createHttpsServer Undefined new_loader) = Some TypeError
      \<and> settings (snd (createHttpsServer Undefined new_loader)) = []"
    using D2[THEN conjunct2, THEN conjunct2, THEN conjunct2] 7
    by simp
  have f: "httpsServer (snd (createHttpsServer Undefined new_loader)) = Some 0"
    using D2[THEN conjunct1] 7 by simp
  show ?thesis using 1 2 a b c d f by blast
qed

section \<open>Autoload\<close>

lemma autoload_trace_grows:
  "\<exists>rest. trace (snd (autoload e st s)) =
     trace s @ Log Info [Str ''[TSED] Autoload configuration :''] #
     map log_setting (settings_set st (settings s)) @ rest"
proof -
  let ?svc = "settings_set st (settings s)"
  let ?s3 = "s\<lparr>settings := ?svc,
                trace := trace s @ Log Info [Str ''[TSED] Autoload configuration :''] #
                         map log_setting ?svc\<rparr>"
  obtain rest where "trace (snd (for_each (dispatch_setting e ?svc) ?svc ?s3)) = trace ?s3 @ rest"
    using autoload_dispatch_grows[of e ?svc ?svc ?s3] by blast
  then show ?thesis
    by (simp add: autoload_eq autoload_dispatch_def)
qed

text \<open>
  C7, as stated, fails for a value that is not empty but falsy: \<^verbatim>\<open>httpPort\<close> set to \<open>0\<close> is
  a recognised key with a non-empty value, and no listener is created for it.
\<close>

theorem falsy_port_counterexample:
  "\<not> isEmpty (Num 0)
   \<and> created HTTP (trace (snd (autoload sample_env [(''httpPort'', Num 0)] new_loader))) = []
   \<and> httpServer (snd (autoload sample_env [(''httpPort'', Num 0)] new_loader)) = None"
  by (simp add: isEmpty_def autoload_eq autoload_dispatch_def dispatch_setting_def new_loader_def
      created_def log_setting_def)

text \<open>
  C7, amended. \<^verbatim>\<open>autoload\<close> logs every pair of the settings, whether a handler exists for
  its key or not, before the dispatch starts: the dispatch runs on a loader whose trace
  already holds all the lines, and only adds to it. In the dispatch each recognised key
  with a truthy value has exactly one corresponding effect: \<^verbatim>\<open>httpPort\<close> creates one HTTP
  listener when the loader has none, \<^verbatim>\<open>httpsPort\<close> one HTTPS listener bound to that port
  when the loader has none, \<^verbatim>\<open>mount\<close> one scan per declared endpoint, \<^verbatim>\<open>componentsScan\<close>
  one scan per declared pattern. A key that is not recognised has no effect at all.
\<close>

theorem autoload_logs_then_dispatches:
  "(\<exists>rest.
      autoload e st s =
        autoload_dispatch e (settings_set st (settings s))
          (s\<lparr>settings := settings_set st (settings s),
             trace := trace s @ Log Info [Str ''[TSED] Autoload configuration :''] #
                      map log_setting (settings_set st (settings s))\<rparr>)
    \<and> trace (snd (autoload e st s)) =
        trace s @ Log Info [Str ''[TSED] Autoload configuration :''] #
        map log_setting (settings_set st (settings s)) @ rest)
   \<and> (truthy v \<and> httpServer t = None \<longrightarrow>
        dispatch_setting e svc (''httpPort'', v) t = (None, createHttpServer v t)
      \<and> trace (createHttpServer v t) = trace t @ [CreateServer HTTP (listeners t) Undefined])
   \<and> (truthy v \<and> httpsServer t = None \<longrightarrow>
        (\<exists>options. trace (snd (dispatch_setting e svc (''httpsPort'', v) t)) =
                      trace t @ [CreateServer HTTPS (listeners t) options]
                  \<and> js_get options ''port'' = v))
   \<and> (distinct (map fst mounts) \<and> setting ''mount'' svc = Obj (map (\<lambda>(k, p). (k, Str p)) mounts) \<longrightarrow>
        dispatch_setting e svc (''mount'', Obj (map (\<lambda>(k, p). (k, Str p)) mounts)) t =
          (None, t\<lparr>trace := trace t @ concat (map (\<lambda>(k, p). scan_events e p (Str k)) mounts)\<rparr>)
      \<and> scans (concat (map (\<lambda>(k, p). scan_events e p (Str k)) mounts)) =
          map (\<lambda>(k, p). normalize_path p) mounts)
   \<and> (setting ''componentsScan'' svc = Arr (map Str dirs) \<longrightarrow>
        dispatch_setting e svc (''componentsScan'', Arr (map Str dirs)) t =
          (None, t\<lparr>trace := trace t @
                   concat (map (\<lambda>p. scan_events e p (setting ''endpoint'' (settings t))) dirs)\<rparr>)
      \<and> scans (concat (map (\<lambda>p. scan_events e p (setting ''endpoint'' (settings t))) dirs)) =
          map normalize_path dirs)
   \<and> (k \<noteq> ''mount'' \<and> k \<noteq> ''componentsScan'' \<and> k \<noteq> ''httpPort'' \<and> k \<noteq> ''httpsPort'' \<longrightarrow>
        dispatch_setting e svc (k, w) t = (None, t))"
proof -
  have p1: "\<exists>rest.
      autoload e st s =
        autoload_dispatch e (settings_set st (settings s))
          (s\<lparr>settings := settings_set st (settings s),
             trace := trace s @ Log Info [Str ''[TSED] Autoload configuration :''] #
                      map log_setting (settings_set st (settings s))\<rparr>)
    \<and> trace (snd (autoload e st s)) =
        trace s @ Log Info [Str ''[TSED] Autoload configuration :''] #
        map log_setting (settings_set st (settings s)) @ rest"
    using autoload_trace_grows[of e st s] autoload_eq[of e st s] by blast
  have p2: "dispatch_setting e svc (''httpPort'', v) t = (None, createHttpServer v t)
      \<and> trace (createHttpServer v t) = trace t @ [CreateServer HTTP (listeners t) Undefined]"
    if "truthy v \<and> httpServer t = None"
    using that by (simp add: dispatch_setting_def bind_httpPort createHttpServer_eq)
  have p3: "\<exists>options. trace (snd (dispatch_setting e svc (''httpsPort'', v) t)) =
                      trace t @ [CreateServer HTTPS (listeners t) options]
                  \<and> js_get options ''port'' = v"
    if "truthy v \<and> httpsServer t = None"
    using that
    by (simp add: dispatch_setting_def bind_httpsPort createHttpsServer_assigned https_options_frame
        Let_def js_get_assigned_port)
  have p4: "dispatch_setting e svc (''mount'', Obj (map (\<lambda>(k, p). (k, Str p)) mounts)) t =
          (None, t\<lparr>trace := trace t @ concat (map (\<lambda>(k, p). scan_events e p (Str k)) mounts)\<rparr>)
      \<and> scans (concat (map (\<lambda>(k, p). scan_events e p (Str k)) mounts)) =
          map (\<lambda>(k, p). normalize_path p) mounts"
    if "distinct (map fst mounts) \<and> setting ''mount'' svc = Obj (map (\<lambda>(k, p). (k, Str p)) mounts)"
    using that bind_mount_eq[of mounts svc e t] scans_mounts[of e mounts]
    by (simp add: dispatch_setting_def)
  have p5: "dispatch_setting e svc (''componentsScan'', Arr (map Str dirs)) t =
          (None, t\<lparr>trace := trace t @
                   concat (map (\<lambda>p. scan_events e p (setting ''endpoint'' (settings t))) dirs)\<rparr>)
      \<and> scans (concat (map (\<lambda>p. scan_events e p (setting ''endpoint'' (settings t))) dirs)) =
          map normalize_path dirs"
    if "setting ''componentsScan'' svc = Arr (map Str dirs)"
    using that bind_componentsScan_eq[of svc dirs e "Arr (map Str dirs)" t] scans_dirs
    by (simp add: dispatch_setting_def)
  have p6: "dispatch_setting e svc (k, w) t = (None, t)"
    if "k \<noteq> ''mount'' \<and> k \<noteq> ''componentsScan'' \<and> k \<noteq> ''httpPort'' \<and> k \<noteq> ''httpsPort''"
    using that by (simp add: dispatch_setting_def bind_def)
  show ?thesis
    using p1 p2 p3 p4 p5 p6 by blast
qed

theorem autoload_logs_then_dispatches_witness:
  "dispatch_setting sample_env [] (''httpPort'', Num 8080) new_loader
     = (None, createHttpServer (Num 8080) new_loader)
   \<and> trace (createHttpServer (Num 8080) new_loader) = [CreateServer HTTP 0 Undefined]
   \<and> (\<exists>options. trace (snd (dispatch_setting sample_env [] (''httpsPort'', Num 8443) new_loader))
                   = [CreateServer HTTPS 0 options] \<and> js_get options ''port'' = Num 8443)
   \<and> scans (trace (snd (dispatch_setting sample_env
         [(''mount'', Obj [(''/rest'', Str ''ctrl/*.ts''), (''/v2'', Str ''v2/*.ts'')])]
         (''mount'', Obj [(''/rest'', Str ''ctrl/*.ts''), (''/v2'', Str ''v2/*.ts'')]) new_loader)))
       = [''ctrl/*.ts'', ''v2/*.ts'']
   \<and> scans (trace (snd (dispatch_setting sample_env
         [(''componentsScan'', Arr [Str ''mw/*.ts''])]
         (''componentsScan'', Arr [Str ''mw/*.ts'']) new_loader)))
       = [''mw/*.ts'']
   \<and> dispatch_setting sample_env [] (''uploadDir'', Str ''/tmp'') new_loader = (None, new_loader)
   \<and> take 3 (trace (snd (autoload sample_env [(''uploadDir'', Str ''/tmp''), (''httpPort'', Num 8080)] new_loader)))
       = [Log Info [Str ''[TSED] Autoload configuration :''],
          Log Info [Str ''[TSED] settings.uploadDir =>'', Str ''/tmp''],
          Log Info [Str ''[TSED] settings.httpPort =>'', Num 8080]]"
proof -
  have h: "truthy (Num 8080) \<and> httpServer new_loader = None"
          "truthy (Num 8443) \<and> httpsServer new_loader = None"
    by (simp_all add: new_loader_def)
  have m: "distinct (map fst [(''/rest'', ''ctrl/*.ts''), (''/v2'', ''v2/*.ts'')])
      \<and> setting ''mount'' [(''mount'', Obj [(''/rest'', Str ''ctrl/*.ts''), (''/v2'', Str ''v2/*.ts'')])]
         = Obj (map (\<lambda>(k, p). (k, Str p)) [(''/rest'', ''ctrl/*.ts''), (''/v2'', ''v2/*.ts'')])"
    by (simp add: setting_def)
  have c: "setting ''componentsScan'' [(''componentsScan'', Arr [Str ''mw/*.ts''])] = Arr (map Str [''mw/*.ts''])"
    by (simp add: setting_def)
  have u: "''uploadDir'' \<noteq> ''mount'' \<and> ''uploadDir'' \<noteq> ''componentsScan''
         \<and> ''uploadDir'' \<noteq> ''httpPort'' \<and> ''uploadDir'' \<noteq> ''httpsPort''"
    by simp
  have st: "settings_set [(''uploadDir'', Str ''/tmp''), (''httpPort'', Num 8080)] (settings new_loader)
      = [(''uploadDir'', Str ''/tmp''), (''httpPort'', Num 8080)]"
    by (simp add: new_loader_def)
  note T = autoload_logs_then_dispatches[where e = sample_env and t = new_loader and s = new_loader]
  have a: "dispatch_setting sample_env [] (''httpPort'', Num 8080) new_loader
     = (None, createHttpServer (Num 8080) new_loader)
   \<and> trace (createHttpServer (Num 8080) new_loader) = [CreateServer HTTP 0 Undefined]"
    using T[where v = "Num 8080" and svc = "[]"] h(1) by (simp add: new_loader_def)
  have b: "\<exists>options. trace (snd (dispatch_setting sample_env [] (''httpsPort'', Num 8443) new_loader))
                   = [CreateServer HTTPS 0 options] \<and> js_get options ''port'' = Num 8443"
    using T[where v = "Num 8443" and svc = "[]"] h(2) by (simp add: new_loader_def)
  have d: "scans (trace (snd (dispatch_setting sample_env
         [(''mount'', Obj [(''/rest'', Str ''ctrl/*.ts''), (''/v2'', Str ''v2/*.ts'')])]
         (''mount'', Obj [(''/rest'', Str ''ctrl/*.ts''), (''/v2'', Str ''v2/*.ts'')]) new_loader)))
       = [''ctrl/*.ts'', ''v2/*.ts'']"
    using T[where mounts = "[(''/rest'', ''ctrl/*.ts''), (''/v2'', ''v2/*.ts'')]"
        and svc = "[(''mount'', Obj [(''/rest'', Str ''ctrl/*.ts''), (''/v2'', Str ''v2/*.ts'')])]"] m
    by (simp add: new_loader_def normalize_path_def)
  have f: "scans (trace (snd (dispatch_setting sample_env
         [(''componentsScan'', Arr [Str ''mw/*.ts''])]
         (''componentsScan'', Arr [Str ''mw/*.ts'']) new_loader)))
       = [''mw/*.ts'']"
    using T[where dirs = "[''mw/*.ts'']" and svc = "[(''componentsScan'', Arr [Str ''mw/*.ts''])]"] c
    by (simp add: new_loader_def normalize_path_def)
  have g: "dispatch_setting sample_env [] (''uploadDir'', Str ''/tmp'') new_loader = (None, new_loader)"
    using T[where k = "''uploadDir''" and svc = "[]" and w = "Str ''/tmp''"] u by simp
  have i: "take 3 (trace (snd (autoload sample_env [(''uploadDir'', Str ''/tmp''), (''httpPort'', Num 8080)] new_loader)))
       = [Log Info [Str ''[TSED] Autoload configuration :''],
          Log Info [Str ''[TSED] settings.uploadDir =>'', Str ''/tmp''],
          Log Info [Str ''[TSED] settings.httpPort =>'', Num 8080]]"
  proof -
    obtain rest where
      "trace (snd (autoload sample_env [(''uploadDir'', Str ''/tmp''), (''httpPort'', Num 8080)] new_loader)) =
         trace new_loader @ Log Info [Str ''[TSED] Autoload configuration :''] #
         map log_setting (settings_set [(''uploadDir'', Str ''/tmp''), (''httpPort'', Num 8080)]
                            (settings new_loader)) @ rest"
      using T[where st = "[(''uploadDir'', Str ''/tmp''), (''httpPort'', Num 8080)]", THEN conjunct1]
      by blast
    then show ?thesis
      by (simp add: st) (simp add: new_loader_def log_setting_def)
  qed
  show ?thesis using a b d f g i by blast
qed

lemma autoload_dispatch_no_truthy_port_server:
  assumes "\<forall>v. (''httpPort'', v) \<in> set kvs \<longrightarrow> \<not> truthy v"
  shows "httpServer (snd (for_each (dispatch_setting e svc) kvs s)) = httpServer s"
proof (rule for_each_rel[where R = "\<lambda>s s'. httpServer s' = httpServer s"])
  fix x s assume x: "x \<in> set kvs"
  obtain k v where kv: "x = (k, v)" by (cases x)
  have "\<not> (fst x = ''httpPort'' \<and> truthy (snd x))"
    using assms x by (auto simp: kv)
  then show "httpServer (snd (dispatch_setting e svc x s)) = httpServer s"
    using dispatch_http[of e svc x s] by auto
qed simp_all

lemma falsy_values:
  "(\<not> truthy v) = (v = Num 0 \<or> v = Bool False \<or> v = Str [] \<or> v = Null \<or> v = Undefined)"
  by (cases v) auto

text \<open>
  C10. In the dispatch of \<^verbatim>\<open>autoload\<close> a pair whose value is falsy (\<open>0\<close>, false, the empty
  string, null or undefined) reaches no handler, whatever its key: the loader is left as
  it is. The pair is logged all the same. When the store holds no truthy \<^verbatim>\<open>httpPort\<close>,
  \<^verbatim>\<open>autoload\<close> creates no HTTP listener. The test is truthiness, which is strictly
  stronger than not being empty: every truthy value is non-empty, and \<open>0\<close> is non-empty
  and falsy.
\<close>

theorem falsy_settings_reach_no_handler:
  "(\<not> truthy v \<longleftrightarrow> v = Num 0 \<or> v = Bool False \<or> v = Str [] \<or> v = Null \<or> v = Undefined)
   \<and> (\<not> truthy v \<longrightarrow> dispatch_setting e svc (k, v) t = (None, t))
   \<and> ((k, v) \<in> set (settings_set st (settings s)) \<longrightarrow>
        log_setting (k, v) \<in> set (trace (snd (autoload e st s))))
   \<and> ((\<forall>w. (''httpPort'', w) \<in> set (settings_set st (settings s)) \<longrightarrow> \<not> truthy w) \<longrightarrow>
        created HTTP (trace (snd (autoload e st s))) = created HTTP (trace s)
      \<and> httpServer (snd (autoload e st s)) = httpServer s)
   \<and> (truthy v \<longrightarrow> \<not> isEmpty v)
   \<and> \<not> isEmpty (Num 0) \<and> \<not> truthy (Num 0)"
proof -
  let ?svc = "settings_set st (settings s)"
  let ?s3 = "s\<lparr>settings := ?svc,
                trace := trace s @ Log Info [Str ''[TSED] Autoload configuration :''] #
                         map log_setting ?svc\<rparr>"
  have a: "autoload e st s = for_each (dispatch_setting e ?svc) ?svc ?s3"
    by (simp add: autoload_eq autoload_dispatch_def)
  have p2: "dispatch_setting e svc (k, v) t = (None, t)" if "\<not> truthy v"
    using that by (simp add: dispatch_setting_def)
  have p3: "log_setting (k, v) \<in> set (trace (snd (autoload e st s)))" if "(k, v) \<in> set ?svc"
  proof -
    obtain rest where "trace (snd (autoload e st s)) =
        trace s @ Log Info [Str ''[TSED] Autoload configuration :''] # map log_setting ?svc @ rest"
      using autoload_trace_grows[of e st s] by blast
    then show ?thesis using that by auto
  qed
  have logs: "created HTTP (Log Info [Str ''[TSED] Autoload configuration :''] # map log_setting ?svc) = []"
    by (simp add: created_def log_setting_def comp_def)
  have p4: "created HTTP (trace (snd (autoload e st s))) = created HTTP (trace s)
      \<and> httpServer (snd (autoload e st s)) = httpServer s"
    if "\<forall>w. (''httpPort'', w) \<in> set ?svc \<longrightarrow> \<not> truthy w"
    using autoload_dispatch_no_truthy_port[OF that, of e ?svc ?s3]
      autoload_dispatch_no_truthy_port_server[OF that, of e ?svc ?s3] logs
    by (simp add: a created_append)
  have p5: "\<not> isEmpty v" if "truthy v"
    using that by (auto simp: isEmpty_def)
  have p6: "\<not> isEmpty (Num 0) \<and> \<not> truthy (Num 0)"
    by (simp add: isEmpty_def)
  show ?thesis
    using falsy_values[of v] p2 p3 p4 p5 p6 by blast
qed

theorem falsy_settings_reach_no_handler_witness:
  "\<not> truthy (Num 0)
   \<and> dispatch_setting sample_env [(''httpPort'', Num 0)] (''httpPort'', Num 0) new_loader = (None, new_loader)
   \<and> Log Info [Str ''[TSED] settings.httpPort =>'', Num 0]
       \<in> set (trace (snd (autoload sample_env [(''httpPort'', Num 0)] new_loader)))
   \<and> created HTTP (trace (snd (autoload sample_env [(''httpPort'', Num 0)] new_loader))) = []
   \<and> httpServer (snd (autoload sample_env [(''httpPort'', Num 0)] new_loader)) = None
   \<and> truthy (Num 8080) \<and> \<not> isEmpty (Num 8080)"
proof -
  have st: "settings_set [(''httpPort'', Num 0)] (settings new_loader) = [(''httpPort'', Num 0)]"
    by (simp add: new_loader_def)
  have f: "\<not> truthy (Num 0)" by simp
  have all: "\<forall>w. (''httpPort'', w) \<in> set (settings_set [(''httpPort'', Num 0)] (settings new_loader))
               \<longrightarrow> \<not> truthy w"
    unfolding st by simp
  have mem: "(''httpPort'', Num 0) \<in> set (settings_set [(''httpPort'', Num 0)] (settings new_loader))"
    unfolding st by simp
  have base: "created HTTP (trace new_loader) = [] \<and> httpServer new_loader = None"
    by (simp add: new_loader_def created_def)
  have ls: "log_setting (''httpPort'', Num 0) = Log Info [Str ''[TSED] settings.httpPort =>'', Num 0]"
    by (simp add: log_setting_def)
  note T = falsy_settings_reach_no_handler[where v = "Num 0" and k = "''httpPort''"
      and e = sample_env and svc = "[(''httpPort'', Num 0)]" and t = new_loader
      and st = "[(''httpPort'', Num 0)]" and s = new_loader]
  have t8: "truthy (Num 8080)" by simp
  have "\<not> isEmpty (Num 8080)"
    using falsy_settings_reach_no_handler[where v = "Num 8080"] t8 by blast
  then show ?thesis
    using T f all mem base ls t8 by metis
qed

section \<open>Static directories: the installed handlers\<close>

lemma fold_use_eq:
  "fold (\<lambda>key. use [Str key, Fn (F key)]) keys s =
     s\<lparr>trace := trace s @
          map (\<lambda>key. AppUse [Str key,
                 if injectorService s \<noteq> None then Fn (Built (F key)) else Fn (F key)]) keys\<rparr>"
  by (induction keys arbitrary: s) (simp_all add: use_def emit_eq wrap_arg_def)

lemma js_get_entry:
  assumes "distinct (map fst kvs)" "(key, dir) \<in> set kvs"
  shows "js_get (Obj kvs) key = dir"
  using assms by (simp add: js_get_def)

text \<open>
  C8. For a mapping of mount paths to directories \<^verbatim>\<open>mountStaticDirectories\<close> registers
  one handler per entry, at the entry's mount path (wrapped by the handler builder once
  the injector is initialised). Called for a request whose response has its headers
  sent, the handler calls \<^verbatim>\<open>next\<close> and nothing else, so it writes nothing; otherwise it
  hands the request to the static-file server of the entry's directory.
\<close>

theorem static_mount_skips_sent_responses:
  "(truthy dirs \<and> resolve_serve_static e = None \<longrightarrow>
      mountStaticDirectories e dirs s =
        (None, s\<lparr>trace := trace s @
                 map (\<lambda>key. AppUse [Str key,
                        if injectorService s \<noteq> None then Fn (Built (StaticMount dirs key))
                        else Fn (StaticMount dirs key)])
                   (object_keys dirs)\<rparr>))
   \<and> (distinct (map fst kvs) \<and> (key, dir) \<in> set kvs \<longrightarrow>
        key \<in> set (object_keys (Obj kvs))
      \<and> (headersSent res \<longrightarrow> handle_request (StaticMount (Obj kvs) key) request res = Some Next)
      \<and> (\<not> headersSent res \<longrightarrow>
           handle_request (StaticMount (Obj kvs) key) request res = Some (ServeStatic dir)))
   \<and> (headersSent res \<longrightarrow> handle_request (StaticMount dirs key) request res = Some Next)"
proof -
  have p1: "mountStaticDirectories e dirs s =
        (None, s\<lparr>trace := trace s @
                 map (\<lambda>key. AppUse [Str key,
                        if injectorService s \<noteq> None then Fn (Built (StaticMount dirs key))
                        else Fn (StaticMount dirs key)])
                   (object_keys dirs)\<rparr>)"
    if "truthy dirs \<and> resolve_serve_static e = None"
    using that fold_use_eq[of "StaticMount dirs" "object_keys dirs" s]
    by (simp add: mountStaticDirectories_def)
  have p2: "key \<in> set (object_keys (Obj kvs))
      \<and> (headersSent res \<longrightarrow> handle_request (StaticMount (Obj kvs) key) request res = Some Next)
      \<and> (\<not> headersSent res \<longrightarrow>
           handle_request (StaticMount (Obj kvs) key) request res = Some (ServeStatic dir))"
    if "distinct (map fst kvs) \<and> (key, dir) \<in> set kvs"
  proof -
    have "js_get (Obj kvs) key = dir" using that js_get_entry by blast
    moreover have "key \<in> set (object_keys (Obj kvs))"
      using that by (force simp: object_keys_def)
    ultimately show ?thesis by (simp add: static_mount_handler_def)
  qed
  have p3: "handle_request (StaticMount dirs key) request res = Some Next" if "headersSent res"
    using that by (simp add: static_mount_handler_def)
  show ?thesis using p1 p2 p3 by blast
qed

theorem static_mount_skips_sent_responses_witness:
  "trace (snd (mountStaticDirectories sample_env (Obj [(''/public'', Str ''/var/www'')])
                 (new_loader\<lparr>injectorService := Some InjectorService\<rparr>)))
     = [AppUse [Str ''/public'', Fn (Built (StaticMount (Obj [(''/public'', Str ''/var/www'')]) ''/public''))]]
   \<and> handle_request (StaticMount (Obj [(''/public'', Str ''/var/www'')]) ''/public'') Undefined
        \<lparr>headersSent = True\<rparr> = Some Next
   \<and> handle_request (StaticMount (Obj [(''/public'', Str ''/var/www'')]) ''/public'') Undefined
        \<lparr>headersSent = False\<rparr> = Some (ServeStatic (Str ''/var/www''))"
proof -
  have h1: "truthy (Obj [(''/public'', Str ''/var/www'')]) \<and> resolve_serve_static sample_env = None"
    by (simp add: sample_env_def)
  have h2: "distinct (map fst [(''/public'', Str ''/var/www'')])
      \<and> (''/public'', Str ''/var/www'') \<in> set [(''/public'', Str ''/var/www'')]"
    by simp
  have keys: "object_keys (Obj [(''/public'', Str ''/var/www'')]) = [''/public'']"
    by (simp add: object_keys_def)
  note T = static_mount_skips_sent_responses[where dirs = "Obj [(''/public'', Str ''/var/www'')]"
      and e = sample_env and kvs = "[(''/public'', Str ''/var/www'')]" and key = "''/public''"
      and dir = "Str ''/var/www''" and request = Undefined]
  have a: "trace (snd (mountStaticDirectories sample_env (Obj [(''/public'', Str ''/var/www'')])
                 (new_loader\<lparr>injectorService := Some InjectorService\<rparr>)))
     = [AppUse [Str ''/public'', Fn (Built (StaticMount (Obj [(''/public'', Str ''/var/www'')]) ''/public''))]]"
    using T[where s = "new_loader\<lparr>injectorService := Some InjectorService\<rparr>" and res = "\<lparr>headersSent = True\<rparr>"]
      h1 by (simp add: keys new_loader_def)
  have b: "handle_request (StaticMount (Obj [(''/public'', Str ''/var/www'')]) ''/public'') Undefined
        \<lparr>headersSent = True\<rparr> = Some Next"
    using T[where res = "\<lparr>headersSent = True\<rparr>"] h2 by simp
  have c: "handle_request (StaticMount (Obj [(''/public'', Str ''/var/www'')]) ''/public'') Undefined
        \<lparr>headersSent = False\<rparr> = Some (ServeStatic (Str ''/var/www''))"
    using T[where res = "\<lparr>headersSent = False\<rparr>"] h2 by simp
  show ?thesis using a b c by blast
qed

section \<open>The boot sequence: failure\<close>

lemma start_without_error_hook:
  assumes "onServerInitError h = None" "start_try h e s = (Rejected err, s')"
  shows "start h e s = (Resolved (Fn (LogServerError err)), s')"
  using assms by (simp add: start_def call_def)

lemma start_with_error_hook:
  assumes "onServerInitError h = Some f" "start_try h e s = (Rejected err, s')"
  shows "start h e s = f [err] s'"
  using assms by (simp add: start_def call_def)

lemma failing_import_try:
  "start_try (no_hooks\<lparr>onMountingMiddlewares := Some failing_hook\<rparr>) sample_env new_loader =
     (Rejected (Err ''import failed''),
      new_loader\<lparr>injectorService := Some InjectorService,
                 trace := [Log Info [Str ''[TSED] Import services''], InjectorLoad]\<rparr>)"
  by (simp add: start_try_def call_def no_hooks_def await_then_def initializeSettings_def
      sample_env_def log_def emit_eq failing_hook_def new_loader_def Let_def)

text \<open>
  C1 says that a boot run in which a stage fails resolves with the value of
  \<^verbatim>\<open>$onServerInitError\<close> when the subclass has that hook, and with undefined after an error
  log when it has not. The code does the first (\<open>start_with_error_hook\<close>) and not the
  second: without the hook, \<^verbatim>\<open>call\<close> gives back the fallback function instead of calling
  it. For a subclass whose middleware import fails and that has no error hook, \<^verbatim>\<open>start\<close>
  resolves with that function, not with undefined, and the trace holds no error line;
  the line the function would have written is the last one below.
\<close>

theorem start_without_error_hook_returns_the_logger:
  "start (no_hooks\<lparr>onMountingMiddlewares := Some failing_hook\<rparr>) sample_env new_loader =
     (Resolved (Fn (LogServerError (Err ''import failed''))),
      new_loader\<lparr>injectorService := Some InjectorService,
                 trace := [Log Info [Str ''[TSED] Import services''], InjectorLoad]\<rparr>)
   \<and> fst (start (no_hooks\<lparr>onMountingMiddlewares := Some failing_hook\<rparr>) sample_env new_loader)
       \<noteq> Resolved Undefined
   \<and> filter (is_log LError)
        (trace (snd (start (no_hooks\<lparr>onMountingMiddlewares := Some failing_hook\<rparr>) sample_env new_loader)))
       = []
   \<and> trace (log_server_error (Err ''import failed'') new_loader)
       = [Log LError [Str ''[TSED] HTTP Server error'', Err ''import failed'']]"
proof -
  have h: "onServerInitError (no_hooks\<lparr>onMountingMiddlewares := Some failing_hook\<rparr>) = None"
    by (simp add: no_hooks_def)
  note r = start_without_error_hook[OF h failing_import_try]
  have l: "trace (log_server_error (Err ''import failed'') new_loader)
       = [Log LError [Str ''[TSED] HTTP Server error'', Err ''import failed'']]"
    by (simp add: log_server_error_def log_def emit_eq new_loader_def)
  show ?thesis unfolding r using l by simp
qed

lemma start_with_returning_hook:
  "start (no_hooks\<lparr>onMountingMiddlewares := Some failing_hook, onServerInitError := Some returning_hook\<rparr>)
     sample_env new_loader =
     (Resolved (Err ''import failed''),
      new_loader\<lparr>injectorService := Some InjectorService,
                 trace := [Log Info [Str ''[TSED] Import services''], InjectorLoad]\<rparr>)"
proof -
  have t: "start_try (no_hooks\<lparr>onMountingMiddlewares := Some failing_hook, onServerInitError := Some returning_hook\<rparr>) sample_env new_loader =
     (Rejected (Err ''import failed''),
      new_loader\<lparr>injectorService := Some InjectorService,
                 trace := [Log Info [Str ''[TSED] Import services''], InjectorLoad]\<rparr>)"
    by (simp add: start_try_def call_def no_hooks_def await_then_def initializeSettings_def
      sample_env_def log_def emit_eq failing_hook_def new_loader_def Let_def)
  have h: "onServerInitError (no_hooks\<lparr>onMountingMiddlewares := Some failing_hook,
             onServerInitError := Some returning_hook\<rparr>) = Some returning_hook"
    by simp
  show ?thesis
    unfolding start_with_error_hook[OF h t] by (simp add: returning_hook_def)
qed

section \<open>The boot sequence: the pipeline\<close>

lemma run_stages_count_le: "fst (run_stages stages v s) \<le> length stages"
proof (induction stages arbitrary: v s)
  case Nil
  then show ?case by simp
next
  case (Cons stage stages)
  obtain r s' where st: "stage s = (r, s')" by (cases "stage s")
  show ?case
  proof (cases r)
    case (Resolved v')
    obtain n q where rs: "run_stages stages v' s' = (n, q)" by (cases "run_stages stages v' s'")
    have "n \<le> length stages" using Cons.IH[of v' s'] rs by simp
    then show ?thesis by (simp add: st Resolved rs)
  qed (simp_all add: st)
qed

lemma run_stages_resolved_all:
  "fst (snd (run_stages stages v s)) = Resolved w \<Longrightarrow> fst (run_stages stages v s) = length stages"
proof (induction stages arbitrary: v s)
  case Nil
  then show ?case by simp
next
  case (Cons stage stages)
  obtain r s' where st: "stage s = (r, s')" by (cases "stage s")
  show ?case
  proof (cases r)
    case (Resolved v')
    obtain n q where rs: "run_stages stages v' s' = (n, q)" by (cases "run_stages stages v' s'")
    have "fst q = Resolved w" using Cons.prems by (simp add: st Resolved rs)
    then have "n = length stages" using Cons.IH[of v' s'] rs by simp
    then show ?thesis by (simp add: st Resolved rs)
  next
    case (Rejected er)
    then show ?thesis using Cons.prems by (simp add: st)
  next
    case Pending
    then show ?thesis using Cons.prems by (simp add: st)
  qed
qed

lemma run_stages_abort:
  assumes "run_stages pre v s = (n, Resolved v', s')" "stage s' = (Rejected er, s'')"
  shows "run_stages (pre @ stage # post) v s = (Suc (length pre), Rejected er, s'')"
  using assms
proof (induction pre arbitrary: v s n)
  case Nil
  then show ?case by simp
next
  case (Cons p pre)
  obtain r t where st: "p s = (r, t)" by (cases "p s")
  show ?case
  proof (cases r)
    case (Resolved u)
    obtain m q where rs: "run_stages pre u t = (m, q)" by (cases "run_stages pre u t")
    have "q = (Resolved v', s')" using Cons.prems(1) by (simp add: st Resolved rs)
    then have "run_stages (pre @ stage # post) u t = (Suc (length pre), Rejected er, s'')"
      using Cons.IH[of u t m] rs Cons.prems(2) by simp
    then show ?thesis by (simp add: st Resolved)
  next
    case (Rejected x)
    then show ?thesis using Cons.prems(1) by (simp add: st)
  next
    case Pending
    then show ?thesis using Cons.prems(1) by (simp add: st)
  qed
qed

lemma start_try_eq:
  "start_try h e s = snd (run_stages (boot_stages h e) Undefined s)"
  by (simp add: start_try_def boot_stages_def await_then_def
      split: prod.splits outcome.splits)

lemma install_error_handlers_update:
  "install_error_handlers (h\<lparr>onInit := a\<rparr>) = install_error_handlers h"
  "install_error_handlers (h\<lparr>onReady := a\<rparr>) = install_error_handlers h"
  "install_error_handlers (h\<lparr>onMountingMiddlewares := a\<rparr>) = install_error_handlers h"
  "install_error_handlers (h\<lparr>afterRoutesInit := a\<rparr>) = install_error_handlers h"
  by (simp_all add: fun_eq_iff install_error_handlers_def)

lemma initializeSettings_onInit:
  "initializeSettings (h\<lparr>onInit := x\<rparr>) e s = initializeSettings h e s"
  by (simp add: initializeSettings_def Let_def install_error_handlers_update split: option.split)

lemma initializeSettings_onReady:
  "initializeSettings (h\<lparr>onReady := x\<rparr>) e s = initializeSettings h e s"
  by (simp add: initializeSettings_def Let_def install_error_handlers_update split: option.split)

lemma initializeSettings_omit_onMountingMiddlewares:
  "initializeSettings (h\<lparr>onMountingMiddlewares := None\<rparr>) e s =
   initializeSettings (h\<lparr>onMountingMiddlewares := Some empty_hook\<rparr>) e s"
  by (simp add: initializeSettings_def Let_def install_error_handlers_update split: option.split)

lemma initializeSettings_omit_afterRoutesInit:
  "initializeSettings (h\<lparr>afterRoutesInit := None\<rparr>) e s =
   initializeSettings (h\<lparr>afterRoutesInit := Some empty_hook\<rparr>) e s"
  by (simp add: initializeSettings_def Let_def install_error_handlers_update split: option.split)

lemma call_None: "call None elseFn args = (\<lambda>s. (Resolved elseFn, s))"
  by (simp add: fun_eq_iff call_def)

lemma call_empty_hook: "call (Some empty_hook) elseFn args = (\<lambda>s. (Resolved Undefined, s))"
  by (simp add: fun_eq_iff call_def empty_hook_def)

lemma start_eqI:
  assumes "onServerInitError h = onServerInitError h'"
    and "start_try h e s = start_try h' e s
         \<or> (\<exists>v v' t. start_try h e s = (Resolved v, t) \<and> start_try h' e s = (Resolved v', t))"
  shows "start h e s = start h' e s"
  using assms by (auto simp: start_def split: prod.splits outcome.splits)

lemma omit_onInit:
  "start (h\<lparr>onInit := None\<rparr>) e s = start (h\<lparr>onInit := Some empty_hook\<rparr>) e s"
proof (rule start_eqI)
  have i: "initializeSettings (h\<lparr>onInit := x\<rparr>) e = initializeSettings h e" for x
    by (rule ext) (rule initializeSettings_onInit)
  have "start_try (h\<lparr>onInit := None\<rparr>) e s = start_try (h\<lparr>onInit := Some empty_hook\<rparr>) e s"
    by (simp add: start_try_def i call_None call_empty_hook await_then_def)
  then show "start_try (h\<lparr>onInit := None\<rparr>) e s = start_try (h\<lparr>onInit := Some empty_hook\<rparr>) e s
      \<or> (\<exists>v v' t. start_try (h\<lparr>onInit := None\<rparr>) e s = (Resolved v, t)
            \<and> start_try (h\<lparr>onInit := Some empty_hook\<rparr>) e s = (Resolved v', t))"
    by simp
qed simp

lemma omit_onReady:
  "start (h\<lparr>onReady := None\<rparr>) e s = start (h\<lparr>onReady := Some empty_hook\<rparr>) e s"
proof (rule start_eqI)
  let ?before = "await_then (await_then (call (onInit h) (Fn EmptyFn) [] s) (initializeSettings h e))
                   (startServers e)"
  have i: "initializeSettings (h\<lparr>onReady := x\<rparr>) e = initializeSettings h e" for x
    by (rule ext) (rule initializeSettings_onReady)
  have a: "start_try (h\<lparr>onReady := None\<rparr>) e s = await_then ?before (\<lambda>s. (Resolved (Fn EmptyFn), s))"
    by (simp add: start_try_def i call_None)
  have b: "start_try (h\<lparr>onReady := Some empty_hook\<rparr>) e s = await_then ?before (\<lambda>s. (Resolved Undefined, s))"
    by (simp add: start_try_def i call_empty_hook)
  obtain r t where bt: "?before = (r, t)" by (cases ?before)
  show "start_try (h\<lparr>onReady := None\<rparr>) e s = start_try (h\<lparr>onReady := Some empty_hook\<rparr>) e s
      \<or> (\<exists>v v' t. start_try (h\<lparr>onReady := None\<rparr>) e s = (Resolved v, t)
            \<and> start_try (h\<lparr>onReady := Some empty_hook\<rparr>) e s = (Resolved v', t))"
    unfolding a b bt by (cases r) (simp_all add: await_then_def)
qed simp

lemma omit_onMountingMiddlewares:
  "start (h\<lparr>onMountingMiddlewares := None\<rparr>) e s =
   start (h\<lparr>onMountingMiddlewares := Some empty_hook\<rparr>) e s"
proof (rule start_eqI)
  have i: "initializeSettings (h\<lparr>onMountingMiddlewares := None\<rparr>) e =
           initializeSettings (h\<lparr>onMountingMiddlewares := Some empty_hook\<rparr>) e"
    by (rule ext) (rule initializeSettings_omit_onMountingMiddlewares)
  show "start_try (h\<lparr>onMountingMiddlewares := None\<rparr>) e s =
        start_try (h\<lparr>onMountingMiddlewares := Some empty_hook\<rparr>) e s
      \<or> (\<exists>v v' t. start_try (h\<lparr>onMountingMiddlewares := None\<rparr>) e s = (Resolved v, t)
            \<and> start_try (h\<lparr>onMountingMiddlewares := Some empty_hook\<rparr>) e s = (Resolved v', t))"
    by (simp add: start_try_def i)
qed simp

lemma omit_afterRoutesInit:
  "start (h\<lparr>afterRoutesInit := None\<rparr>) e s = start (h\<lparr>afterRoutesInit := Some empty_hook\<rparr>) e s"
proof (rule start_eqI)
  have i: "initializeSettings (h\<lparr>afterRoutesInit := None\<rparr>) e =
           initializeSettings (h\<lparr>afterRoutesInit := Some empty_hook\<rparr>) e"
    by (rule ext) (rule initializeSettings_omit_afterRoutesInit)
  show "start_try (h\<lparr>afterRoutesInit := None\<rparr>) e s =
        start_try (h\<lparr>afterRoutesInit := Some empty_hook\<rparr>) e s
      \<or> (\<exists>v v' t. start_try (h\<lparr>afterRoutesInit := None\<rparr>) e s = (Resolved v, t)
            \<and> start_try (h\<lparr>afterRoutesInit := Some empty_hook\<rparr>) e s = (Resolved v', t))"
    by (simp add: start_try_def i)
qed simp


text \<open>
  C3. \<^verbatim>\<open>start\<close> runs the pipeline of the specification: the four stages \<^verbatim>\<open>$onInit\<close>,
  \<^verbatim>\<open>initializeSettings\<close>, \<^verbatim>\<open>startServers\<close>, \<^verbatim>\<open>$onReady\<close>, in that order, each on the loader
  the previous one left once it has resolved. At most four stages run, and all four when
  the block resolves, in which case \<^verbatim>\<open>start\<close> resolves with undefined. When the stage at
  position \<open>i\<close> rejects, exactly \<open>i + 1\<close> stages have run: the block ends with that rejection
  on the loader that stage left, and what \<^verbatim>\<open>start\<close> does next is the error path alone.
  Leaving out \<^verbatim>\<open>$onInit\<close>, \<^verbatim>\<open>$onMountingMiddlewares\<close>, \<^verbatim>\<open>$afterRoutesInit\<close> or \<^verbatim>\<open>$onReady\<close>
  is the same as defining it to do nothing.
\<close>

theorem start_runs_four_stages_in_order:
  "start_try h e s = snd (run_stages (boot_stages h e) Undefined s)
   \<and> length (boot_stages h e) = 4
   \<and> fst (run_stages (boot_stages h e) Undefined s) \<le> 4
   \<and> (fst (start_try h e s) = Resolved w \<longrightarrow>
        fst (run_stages (boot_stages h e) Undefined s) = 4
      \<and> start h e s = (Resolved Undefined, snd (start_try h e s)))
   \<and> (i < 4 \<and> run_stages (take i (boot_stages h e)) Undefined s = (n, Resolved v, s')
        \<and> (boot_stages h e ! i) s' = (Rejected er, s'') \<longrightarrow>
        run_stages (boot_stages h e) Undefined s = (Suc i, Rejected er, s'')
      \<and> start_try h e s = (Rejected er, s'')
      \<and> start h e s = call (onServerInitError h) (Fn (LogServerError er)) [er] s'')
   \<and> start (h\<lparr>onInit := None\<rparr>) e s = start (h\<lparr>onInit := Some empty_hook\<rparr>) e s
   \<and> start (h\<lparr>onMountingMiddlewares := None\<rparr>) e s =
       start (h\<lparr>onMountingMiddlewares := Some empty_hook\<rparr>) e s
   \<and> start (h\<lparr>afterRoutesInit := None\<rparr>) e s = start (h\<lparr>afterRoutesInit := Some empty_hook\<rparr>) e s
   \<and> start (h\<lparr>onReady := None\<rparr>) e s = start (h\<lparr>onReady := Some empty_hook\<rparr>) e s"
proof -
  let ?boot = "boot_stages h e"
  have len: "length ?boot = 4" by (simp add: boot_stages_def)
  have le: "fst (run_stages ?boot Undefined s) \<le> 4"
    using run_stages_count_le[of ?boot Undefined s] len by simp
  have all: "fst (run_stages ?boot Undefined s) = 4
      \<and> start h e s = (Resolved Undefined, snd (start_try h e s))"
    if r: "fst (start_try h e s) = Resolved w"
  proof -
    have "fst (snd (run_stages ?boot Undefined s)) = Resolved w"
      using r by (simp add: start_try_eq)
    then have "fst (run_stages ?boot Undefined s) = 4"
      using run_stages_resolved_all[of ?boot Undefined s w] len by simp
    moreover have "start h e s = (Resolved Undefined, snd (start_try h e s))"
      using r by (cases "start_try h e s") (simp add: start_def)
    ultimately show ?thesis by simp
  qed
  have abort: "run_stages ?boot Undefined s = (Suc i, Rejected er, s'')
      \<and> start_try h e s = (Rejected er, s'')
      \<and> start h e s = call (onServerInitError h) (Fn (LogServerError er)) [er] s''"
    if a: "i < 4 \<and> run_stages (take i ?boot) Undefined s = (n, Resolved v, s')
        \<and> (?boot ! i) s' = (Rejected er, s'')"
  proof -
    have i: "i < length ?boot" using a len by simp
    have split: "?boot = take i ?boot @ ?boot ! i # drop (Suc i) ?boot"
      using id_take_nth_drop[OF i] .
    have "run_stages (take i ?boot @ ?boot ! i # drop (Suc i) ?boot) Undefined s =
            (Suc (length (take i ?boot)), Rejected er, s'')"
      using run_stages_abort[of "take i ?boot" Undefined s n v s' "?boot ! i" er s''
          "drop (Suc i) ?boot"] a
      by blast
    then have run: "run_stages ?boot Undefined s = (Suc i, Rejected er, s'')"
      using split i by simp
    then have "start_try h e s = (Rejected er, s'')" by (simp add: start_try_eq)
    then show ?thesis using run by (simp add: start_def)
  qed
  show ?thesis
    using start_try_eq[of h e s] len le all abort omit_onInit[of h e s]
      omit_onMountingMiddlewares[of h e s] omit_afterRoutesInit[of h e s] omit_onReady[of h e s]
    by blast
qed

lemma boot_without_hooks:
  "start_try no_hooks sample_env new_loader =
     (Resolved (Fn EmptyFn),
      new_loader\<lparr>injectorService := Some InjectorService,
                 trace := [Log Info [Str ''[TSED] Import services''], InjectorLoad,
                           Log Info [Str ''[TSED] Import controllers''], ControllerLoad,
                           Log Info [Str ''[TSED] Routes mounted :''], PrintRoutes,
                           AppUse [Fn (Built GlobalErrorHandlerMiddleware)]]\<rparr>)"
  by (simp add: start_try_def call_def no_hooks_def await_then_def initializeSettings_def
      sample_env_def log_def emit_eq new_loader_def Let_def empty_hook_def load_controllers_def
      mount_statics_then_def mountStaticDirectories_def setting_def getSettingsService_def
      install_error_handlers_def use_def wrap_arg_def startServers_def)

theorem start_runs_four_stages_in_order_witness:
  "fst (run_stages (boot_stages no_hooks sample_env) Undefined new_loader) = 4
   \<and> fst (start no_hooks sample_env new_loader) = Resolved Undefined
   \<and> run_stages (boot_stages (no_hooks\<lparr>onInit := Some failing_hook\<rparr>) sample_env) Undefined new_loader
       = (1, Rejected (Err ''import failed''), new_loader)
   \<and> start_try (no_hooks\<lparr>onInit := Some failing_hook\<rparr>) sample_env new_loader
       = (Rejected (Err ''import failed''), new_loader)"
proof -
  have ok: "fst (start_try no_hooks sample_env new_loader) = Resolved (Fn EmptyFn)"
    by (simp add: boot_without_hooks)
  have a: "fst (run_stages (boot_stages no_hooks sample_env) Undefined new_loader) = 4
      \<and> start no_hooks sample_env new_loader = (Resolved Undefined, snd (start_try no_hooks sample_env new_loader))"
    using start_runs_four_stages_in_order[where h = no_hooks and e = sample_env and s = new_loader
        and w = "Fn EmptyFn"] ok by blast
  let ?h = "no_hooks\<lparr>onInit := Some failing_hook\<rparr>"
  have pre: "(0::nat) < 4 \<and> run_stages (take 0 (boot_stages ?h sample_env)) Undefined new_loader
               = (0, Resolved Undefined, new_loader)
        \<and> (boot_stages ?h sample_env ! 0) new_loader = (Rejected (Err ''import failed''), new_loader)"
    by (simp add: boot_stages_def call_def failing_hook_def)
  have b: "run_stages (boot_stages ?h sample_env) Undefined new_loader
       = (Suc 0, Rejected (Err ''import failed''), new_loader)
      \<and> start_try ?h sample_env new_loader = (Rejected (Err ''import failed''), new_loader)"
    using start_runs_four_stages_in_order[where h = ?h and e = sample_env and s = new_loader
        and i = 0 and n = 0 and v = Undefined and s' = new_loader and er = "Err ''import failed''"
        and s'' = new_loader] pre by blast
  show ?thesis using a b by simp
qed

section \<open>Starting the listeners\<close>

lemma first_event_Nil: "first_event p [] = None"
  by (simp add: first_event_def)

lemma first_event_Cons:
  "first_event p ((q, ev) # evs) = (if q = p then Some ev else first_event p evs)"
  by (simp add: first_event_def)

lemma await_listeners_kind:
  "set waiting \<subseteq> set started \<Longrightarrow>
   kind (fst (await_listeners ap started waiting evs s)) =
     (if \<forall>p\<in>set waiting. first_event p evs = Some Listening then Fulfilled
      else if \<exists>p\<in>set waiting. \<exists>er. first_event p evs = Some (Failed er) then Refused
      else Unsettled)"
proof (induction ap started waiting evs s rule: await_listeners.induct)
  case (1 ap started evs s)
  then show ?case by simp
next
  case (2 ap started w ws s)
  then show ?case by (auto simp: first_event_Nil)
next
  case (3 ap started w ws p ev evs s)
  show ?case
  proof (cases "p \<in> set started")
    case False
    then have ne: "\<And>q. q \<in> set (w # ws) \<Longrightarrow> q \<noteq> p" using "3.prems" by auto
    have same: "\<And>q. q \<in> set (w # ws) \<Longrightarrow> first_event q ((p, ev) # evs) = first_event q evs"
      using ne by (auto simp: first_event_Cons)
    have "kind (fst (await_listeners ap started (w # ws) ((p, ev) # evs) s)) =
          kind (fst (await_listeners ap started (w # ws) evs s))"
      using False by simp
    also have "\<dots> = (if \<forall>q\<in>set (w # ws). first_event q evs = Some Listening then Fulfilled
      else if \<exists>q\<in>set (w # ws). \<exists>er. first_event q evs = Some (Failed er) then Refused
      else Unsettled)"
      using "3.IH"(1) False "3.prems" by simp
    finally show ?thesis using same by simp
  next
    case True
    show ?thesis
    proof (cases ev)
      case Listening
      let ?ws = "removeAll p (w # ws)"
      have sub: "set ?ws \<subseteq> set started" using "3.prems" by auto
      have ih: "kind (fst (await_listeners ap started ?ws evs (emit (listening_line p (ap p)) s))) =
        (if \<forall>q\<in>set ?ws. first_event q evs = Some Listening then Fulfilled
         else if \<exists>q\<in>set ?ws. \<exists>er. first_event q evs = Some (Failed er) then Refused
         else Unsettled)"
        using "3.IH"(2) True Listening sub by simp
      have a: "(\<forall>q\<in>set (w # ws). first_event q ((p, ev) # evs) = Some Listening) =
               (\<forall>q\<in>set ?ws. first_event q evs = Some Listening)"
        using Listening by (auto simp: first_event_Cons)
      have b: "(\<exists>q\<in>set (w # ws). \<exists>er. first_event q ((p, ev) # evs) = Some (Failed er)) =
               (\<exists>q\<in>set ?ws. \<exists>er. first_event q evs = Some (Failed er))"
        using Listening by (auto simp: first_event_Cons)
      have "await_listeners ap started (w # ws) ((p, ev) # evs) s =
            await_listeners ap started ?ws evs (emit (listening_line p (ap p)) s)"
        using True Listening by simp
      then show ?thesis unfolding a b using ih by simp
    next
      case (Failed er)
      show ?thesis
      proof (cases "p \<in> set (w # ws)")
        case pin: True
        have "first_event p ((p, ev) # evs) = Some (Failed er)"
          using Failed by (simp add: first_event_Cons)
        then have "\<not> (\<forall>q\<in>set (w # ws). first_event q ((p, ev) # evs) = Some Listening)"
          "\<exists>q\<in>set (w # ws). \<exists>er. first_event q ((p, ev) # evs) = Some (Failed er)"
          using pin by (force, blast)
        moreover have "await_listeners ap started (w # ws) ((p, ev) # evs) s = (Rejected er, s)"
          using True Failed pin by simp
        ultimately show ?thesis by simp
      next
        case pout: False
        have same: "\<And>q. q \<in> set (w # ws) \<Longrightarrow> first_event q ((p, ev) # evs) = first_event q evs"
          using pout by (auto simp: first_event_Cons)
        have "kind (fst (await_listeners ap started (w # ws) ((p, ev) # evs) s)) =
              kind (fst (await_listeners ap started (w # ws) evs s))"
          using True Failed pout by simp
        also have "\<dots> = (if \<forall>q\<in>set (w # ws). first_event q evs = Some Listening then Fulfilled
          else if \<exists>q\<in>set (w # ws). \<exists>er. first_event q evs = Some (Failed er) then Refused
          else Unsettled)"
          using "3.IH"(3) True Failed pout "3.prems" by simp
        finally show ?thesis using same by simp
      qed
    qed
  qed
qed

lemma await_listeners_trace:
  "\<exists>lines. snd (await_listeners ap started waiting evs s) = s\<lparr>trace := trace s @ lines\<rparr>
      \<and> (\<forall>l\<in>set lines. is_log Info l)"
proof (induction ap started waiting evs s rule: await_listeners.induct)
  case (1 ap started evs s)
  show ?case by (rule exI[of _ "[]"]) simp
next
  case (2 ap started w ws s)
  show ?case by (rule exI[of _ "[]"]) simp
next
  case (3 ap started w ws p ev evs s)
  have triv: "\<exists>lines. s = s\<lparr>trace := trace s @ lines\<rparr> \<and> (\<forall>l\<in>set lines. is_log Info l)"
    by (rule exI[of _ "[]"]) simp
  show ?case
  proof (cases "p \<in> set started")
    case False
    then show ?thesis using "3.IH"(1) by simp
  next
    case True
    show ?thesis
    proof (cases ev)
      case Listening
      let ?s1 = "emit (listening_line p (ap p)) s"
      obtain lines where l: "snd (await_listeners ap started (removeAll p (w # ws)) evs ?s1) =
          ?s1\<lparr>trace := trace ?s1 @ lines\<rparr>" "\<forall>l\<in>set lines. is_log Info l"
        using "3.IH"(2) True Listening by auto
      have info: "is_log Info (listening_line p (ap p))"
        by (cases p) (simp_all add: listening_line_def)
      have "snd (await_listeners ap started (w # ws) ((p, ev) # evs) s) =
            s\<lparr>trace := trace s @ (listening_line p (ap p) # lines)\<rparr>"
        using True Listening l(1) by (simp add: emit_eq)
      then show ?thesis using l(2) info
        by (intro exI[of _ "listening_line p (ap p) # lines"]) simp
    next
      case (Failed er)
      show ?thesis
      proof (cases "p \<in> set (w # ws)")
        case pin: True
        then show ?thesis using True Failed triv by simp
      next
        case pout: False
        then show ?thesis using "3.IH"(3) True Failed by simp
      qed
    qed
  qed
qed


lemma kind_Fulfilled: "(kind r = Fulfilled) = (\<exists>v. r = Resolved v)"
  by (cases r) simp_all

lemma kind_Refused: "(kind r = Refused) = (\<exists>er. r = Rejected er)"
  by (cases r) simp_all

lemma startServers_both:
  assumes "httpServer s \<noteq> None" "httpsServer s \<noteq> None"
    and "ap = (\<lambda>p. address_port e (setting (port_setting p) (settings s)))"
  shows "startServers e s =
     await_listeners ap [HTTP, HTTPS] [HTTP, HTTPS] (listener_events e)
       (s\<lparr>trace := trace s @
            [start_line HTTP (ap HTTP), Listen HTTP (snd (ap HTTP)) (fst (ap HTTP)),
             start_line HTTPS (ap HTTPS), Listen HTTPS (snd (ap HTTPS)) (fst (ap HTTPS))]\<rparr>)"
proof -
  obtain a b where "httpServer s = Some a" "httpsServer s = Some b"
    using assms(1,2) by auto
  then show ?thesis
    by (simp add: startServers_def getSettingsService_def listen_on_def emit_eq assms(3) Let_def)
qed

lemma both_kind:
  "kind (fst (await_listeners ap [HTTP, HTTPS] [HTTP, HTTPS] evs s)) =
     (if first_event HTTP evs = Some Listening \<and> first_event HTTPS evs = Some Listening
      then Fulfilled
      else if (\<exists>er. first_event HTTP evs = Some (Failed er))
            \<or> (\<exists>er. first_event HTTPS evs = Some (Failed er)) then Refused
      else Unsettled)"
  using await_listeners_kind[of "[HTTP, HTTPS]" "[HTTP, HTTPS]" ap evs s] by simp

text \<open>
  C4. On a loader with both listeners \<^verbatim>\<open>startServers\<close> issues the two \<^verbatim>\<open>listen\<close> calls
  first, whatever the listeners answer: they are in the trace before any line a
  \<^verbatim>\<open>listening\<close> event writes. It resolves exactly when each listener's first event is
  \<^verbatim>\<open>listening\<close>, so only after both have emitted it, and it rejects exactly when the
  first event of either listener is \<^verbatim>\<open>error\<close>. Whether it resolves, rejects or stays
  unsettled depends on what each listener emits and not on how the events of the two are
  interleaved.
\<close>

theorem startServers_waits_for_both:
  assumes both: "httpServer s \<noteq> None \<and> httpsServer s \<noteq> None"
    and ap: "ap = (\<lambda>p. address_port e (setting (port_setting p) (settings s)))"
    and evs: "evs = listener_events e"
  shows "(\<exists>lines. snd (startServers e s) =
            s\<lparr>trace := trace s @
                 [start_line HTTP (ap HTTP), Listen HTTP (snd (ap HTTP)) (fst (ap HTTP)),
                  start_line HTTPS (ap HTTPS), Listen HTTPS (snd (ap HTTPS)) (fst (ap HTTPS))] @
                 lines\<rparr>
          \<and> (\<forall>l\<in>set lines. is_log Info l))
   \<and> ((\<exists>v. fst (startServers e s) = Resolved v) \<longleftrightarrow>
        first_event HTTP evs = Some Listening \<and> first_event HTTPS evs = Some Listening)
   \<and> ((\<exists>er. fst (startServers e s) = Rejected er) \<longleftrightarrow>
        (\<exists>er. first_event HTTP evs = Some (Failed er))
      \<or> (\<exists>er. first_event HTTPS evs = Some (Failed er)))
   \<and> (\<forall>evs'. filter (\<lambda>pe. fst pe = HTTP) evs' = filter (\<lambda>pe. fst pe = HTTP) evs
            \<and> filter (\<lambda>pe. fst pe = HTTPS) evs' = filter (\<lambda>pe. fst pe = HTTPS) evs \<longrightarrow>
            kind (fst (startServers (e\<lparr>listener_events := evs'\<rparr>) s)) = kind (fst (startServers e s)))"
proof -
  let ?issued = "[start_line HTTP (ap HTTP), Listen HTTP (snd (ap HTTP)) (fst (ap HTTP)),
                  start_line HTTPS (ap HTTPS), Listen HTTPS (snd (ap HTTPS)) (fst (ap HTTPS))]"
  let ?s2 = "s\<lparr>trace := trace s @ ?issued\<rparr>"
  have run: "startServers e s = await_listeners ap [HTTP, HTTPS] [HTTP, HTTPS] evs ?s2"
    using startServers_both[of s ap e] both ap evs by simp
  have p1: "\<exists>lines. snd (startServers e s) = s\<lparr>trace := trace s @ ?issued @ lines\<rparr>
          \<and> (\<forall>l\<in>set lines. is_log Info l)"
  proof -
    obtain lines where "snd (await_listeners ap [HTTP, HTTPS] [HTTP, HTTPS] evs ?s2) =
        ?s2\<lparr>trace := trace ?s2 @ lines\<rparr>" "\<forall>l\<in>set lines. is_log Info l"
      using await_listeners_trace[of ap "[HTTP, HTTPS]" "[HTTP, HTTPS]" evs ?s2] by blast
    then show ?thesis unfolding run by (intro exI[of _ lines]) simp
  qed
  have k: "kind (fst (startServers e s)) =
     (if first_event HTTP evs = Some Listening \<and> first_event HTTPS evs = Some Listening
      then Fulfilled
      else if (\<exists>er. first_event HTTP evs = Some (Failed er))
            \<or> (\<exists>er. first_event HTTPS evs = Some (Failed er)) then Refused
      else Unsettled)"
    unfolding run by (rule both_kind)
  have p2: "(\<exists>v. fst (startServers e s) = Resolved v) \<longleftrightarrow>
        first_event HTTP evs = Some Listening \<and> first_event HTTPS evs = Some Listening"
    using k kind_Fulfilled[of "fst (startServers e s)"] by (auto split: if_splits)
  have p3: "(\<exists>er. fst (startServers e s) = Rejected er) \<longleftrightarrow>
        (\<exists>er. first_event HTTP evs = Some (Failed er))
      \<or> (\<exists>er. first_event HTTPS evs = Some (Failed er))"
    using k kind_Refused[of "fst (startServers e s)"] by (auto split: if_splits)
  have p4: "kind (fst (startServers (e\<lparr>listener_events := evs'\<rparr>) s)) = kind (fst (startServers e s))"
    if f: "filter (\<lambda>pe. fst pe = HTTP) evs' = filter (\<lambda>pe. fst pe = HTTP) evs
            \<and> filter (\<lambda>pe. fst pe = HTTPS) evs' = filter (\<lambda>pe. fst pe = HTTPS) evs" for evs'
  proof -
    have fe: "first_event HTTP evs' = first_event HTTP evs" "first_event HTTPS evs' = first_event HTTPS evs"
      using f by (simp_all add: first_event_def)
    have "startServers (e\<lparr>listener_events := evs'\<rparr>) s =
          await_listeners ap [HTTP, HTTPS] [HTTP, HTTPS] evs' ?s2"
      using startServers_both[of s ap "e\<lparr>listener_events := evs'\<rparr>"] both ap by simp
    then have "kind (fst (startServers (e\<lparr>listener_events := evs'\<rparr>) s)) =
     (if first_event HTTP evs' = Some Listening \<and> first_event HTTPS evs' = Some Listening
      then Fulfilled
      else if (\<exists>er. first_event HTTP evs' = Some (Failed er))
            \<or> (\<exists>er. first_event HTTPS evs' = Some (Failed er)) then Refused
      else Unsettled)"
      by (simp only: both_kind)
    then show ?thesis unfolding k fe .
  qed
  show ?thesis using p1 p2 p3 p4 by blast
qed


theorem startServers_waits_for_both_witness:
  "httpServer two_listeners \<noteq> None \<and> httpsServer two_listeners \<noteq> None
   \<and> (\<exists>v. fst (startServers (sample_env\<lparr>listener_events := [(HTTPS, Listening), (HTTP, Listening)]\<rparr>)
                  two_listeners) = Resolved v)
   \<and> (\<exists>er. fst (startServers
                  (sample_env\<lparr>listener_events := [(HTTP, Listening), (HTTPS, Failed (Err ''EADDRINUSE''))]\<rparr>)
                  two_listeners) = Rejected er)
   \<and> kind (fst (startServers (sample_env\<lparr>listener_events := [(HTTP, Listening), (HTTPS, Listening)]\<rparr>)
                  two_listeners)) = Fulfilled"
proof -
  let ?e1 = "sample_env\<lparr>listener_events := [(HTTPS, Listening), (HTTP, Listening)]\<rparr>"
  let ?e2 = "sample_env\<lparr>listener_events := [(HTTP, Listening), (HTTPS, Failed (Err ''EADDRINUSE''))]\<rparr>"
  let ?e3 = "sample_env\<lparr>listener_events := [(HTTP, Listening), (HTTPS, Listening)]\<rparr>"
  have both: "httpServer two_listeners \<noteq> None \<and> httpsServer two_listeners \<noteq> None"
    by (simp add: two_listeners_def)
  have f1: "first_event HTTP (listener_events ?e1) = Some Listening
          \<and> first_event HTTPS (listener_events ?e1) = Some Listening"
    by (simp add: first_event_def)
  have f2: "first_event HTTPS (listener_events ?e2) = Some (Failed (Err ''EADDRINUSE''))"
    by (simp add: first_event_def)
  have a: "\<exists>v. fst (startServers ?e1 two_listeners) = Resolved v"
    using startServers_waits_for_both[OF both refl refl, of ?e1, THEN conjunct2, THEN conjunct1] f1
    by blast
  have b: "\<exists>er. fst (startServers ?e2 two_listeners) = Rejected er"
    using startServers_waits_for_both[OF both refl refl, of ?e2, THEN conjunct2, THEN conjunct2,
        THEN conjunct1] f2
    by blast
  have perm: "filter (\<lambda>pe. fst pe = HTTP) [(HTTP, Listening), (HTTPS, Listening)]
                = filter (\<lambda>pe. fst pe = HTTP) (listener_events ?e1)
            \<and> filter (\<lambda>pe. fst pe = HTTPS) [(HTTP, Listening), (HTTPS, Listening)]
                = filter (\<lambda>pe. fst pe = HTTPS) (listener_events ?e1)"
    by simp
  have upd: "?e1\<lparr>listener_events := [(HTTP, Listening), (HTTPS, Listening)]\<rparr> = ?e3"
    by simp
  have "kind (fst (startServers (?e1\<lparr>listener_events := [(HTTP, Listening), (HTTPS, Listening)]\<rparr>)
                two_listeners)) = kind (fst (startServers ?e1 two_listeners))"
    using startServers_waits_for_both[OF both refl refl, of ?e1, THEN conjunct2, THEN conjunct2,
        THEN conjunct2, THEN spec, of "[(HTTP, Listening), (HTTPS, Listening)]"] perm
    by blast
  then have c: "kind (fst (startServers ?e3 two_listeners)) = Fulfilled"
    unfolding upd using a kind_Fulfilled by metis
  show ?thesis using both a b c by blast
qed

end
